theory Spec2Isabelle
  imports Main "HOL-Library.Word"
begin

section \<open>The index cache of the astrometry.net catalogue (multiindex.py)\<close>

text \<open>
  The module wraps the native multi-index of astrometry.net in a lazily loading handle
  (class \<open>MultiIndexCache\<close>), collects the handles of a configuration in a registry
  (class \<open>AstrometryNetCatalog\<close>) and writes and reads a cache file of the registry's
  metadata. The embedding follows the Python text: an object is a record, a method takes
  the object and returns it updated, a raised exception is a value of type \<open>error\<close>,
  and everything the module asks of the outside (the file system, the native library, the
  FITS files) is read from a record \<open>env\<close>.
\<close>

subsection \<open>Exceptions, file names, log records\<close>

datatype error =
    RuntimeError | TypeError | ValueError | KeyError | IndexError
  | AssertionError | AttributeError | OSError | OverflowError | UnicodeError | NativeError

text \<open>An entry of a filename list: a string, or Python's \<open>None\<close>.\<close>

type_synonym fname = "string option"

text \<open>The records the methods hand to \<open>self.log\<close>, one constructor per call site.\<close>

datatype log_record =
    DebugNoPart
  | WarnNoFile string
  | DebugReading string
  | DebugIndexInfo int int int int int

subsection \<open>The native library\<close>

text \<open>
  Modelled from the spec: the native wrapper module \<open>astrometry_net\<close> (class
  \<open>MultiIndex\<close>, function \<open>healpixDistance\<close>) is not among the sources. An index part
  carries the metadata the module reads from it (id, healpix, nside, star count, quad
  count). A multi-index is an opaque structure built from its primary file, to which
  index parts are attached one after the other; \<open>unload\<close> releases its heavy payload and
  \<open>reload\<close> refreshes it. Indexed access is to the individual loaded index parts, by
  their position among the attached ones; where the position holds no part the access
  raises, as Python's sequence protocol has it.
\<close>

record index_t =
  indexid :: int
  ind_healpix :: int
  hpnside :: int
  nstars :: int
  nquads :: int

record multiindex =
  mi_name :: string
  mi_inds :: "index_t list"
  mi_resident :: bool

subsection \<open>Configuration, cache file, environment\<close>

text \<open>
  Modelled from the spec: class \<open>AstrometryNetDataConfig\<close> is not among the sources. It
  exposes the single-index filenames, the filename groups of the multi-indexes and the
  flag that permits the use of the cache.
\<close>

record config =
  indexFiles :: "fname list"
  multiIndexFiles :: "fname list list"
  allowCache :: bool

text \<open>
  The cache file holds two binary tables. The columns of format \<open>K\<close> are signed 64-bit
  integers; the filename column is a string of fixed width over ASCII. The record holds the
  cells as they were written.
\<close>

record cache_file =
  first :: "(64 word \<times> 64 word \<times> 64 word) list"
  second :: "(64 word \<times> string) list"

record env =
  packageDir :: "string option"
  abspath :: "string \<Rightarrow> string"
  path_exists :: "string \<Rightarrow> bool"
  native_multiindex :: "string \<Rightarrow> bool"
  native_index :: "string \<Rightarrow> index_t option"
  native_reload :: "string \<Rightarrow> bool"
  fits_open :: "string \<Rightarrow> error + cache_file"
  fits_writable :: "string \<Rightarrow> bool"
  load_config :: "string \<Rightarrow> error + config"

text \<open>
  \<open>packageDir\<close> is the result of \<open>lsst.utils.getPackageDir('astrometry_net_data')\<close>,
  \<open>None\<close> when that call raises; \<open>abspath\<close> and \<open>path_exists\<close> are \<open>os.path.abspath\<close>
  and \<open>os.path.exists\<close>; \<open>native_multiindex fn\<close> tells whether the native library
  opens \<open>fn\<close> as a multi-index, \<open>native_index fn\<close> is the index part it loads from
  \<open>fn\<close> (\<open>None\<close> when it throws), \<open>native_reload\<close> whether a refresh of the structure
  opened from that file succeeds; \<open>fits_open\<close> and \<open>fits_writable\<close> stand for the FITS
  library, \<open>load_config\<close> for \<open>AstrometryNetDataConfig.load\<close>.
\<close>

text \<open>
  Modelled from the spec: the constructor and the methods of the native class
  \<open>MultiIndex\<close> that the module calls (\<open>MultiIndex(fn)\<close>, \<open>addIndex(fn, False)\<close>,
  \<open>__getitem__\<close>, \<open>reload\<close>, \<open>unload\<close>). A load or parse failure of the native
  library is the exception \<open>NativeError\<close>.
\<close>

definition MultiIndex :: "env \<Rightarrow> string \<Rightarrow> error + multiindex" where
  "MultiIndex e fn =
     (if native_multiindex e fn
      then Inr \<lparr>mi_name = fn, mi_inds = [], mi_resident = True\<rparr>
      else Inl NativeError)"

definition addIndex :: "env \<Rightarrow> multiindex \<Rightarrow> string \<Rightarrow> error + multiindex" where
  "addIndex e m fn =
     (case native_index e fn of
        None \<Rightarrow> Inl NativeError
      | Some ind \<Rightarrow> Inr (m\<lparr>mi_inds := mi_inds m @ [ind]\<rparr>))"

definition mi_getitem :: "multiindex \<Rightarrow> nat \<Rightarrow> error + index_t" where
  "mi_getitem m i = (if i < length (mi_inds m) then Inr (mi_inds m ! i) else Inl IndexError)"

definition mi_reload :: "env \<Rightarrow> multiindex \<Rightarrow> error + multiindex" where
  "mi_reload e m =
     (if native_reload e (mi_name m) then Inr (m\<lparr>mi_resident := True\<rparr>) else Inl NativeError)"

definition mi_unload :: "multiindex \<Rightarrow> multiindex" where
  "mi_unload m = m\<lparr>mi_resident := False\<rparr>"

subsection \<open>getIndexPath and getConfigFromEnvironment\<close>

definition isabs :: "string \<Rightarrow> bool" where
  "isabs fn = (case fn of [] \<Rightarrow> False | c # _ \<Rightarrow> c = CHR ''/'')"

definition path_join :: "string \<Rightarrow> string \<Rightarrow> string" where
  "path_join a b =
     (if isabs b then b
      else if a = [] \<or> last a = CHR ''/'' then a @ b
      else a @ ''/'' @ b)"

text \<open>\<open>os.path.isabs(None)\<close> raises \<open>TypeError\<close>.\<close>

definition getIndexPath :: "env \<Rightarrow> fname \<Rightarrow> error + string" where
  "getIndexPath e fn =
     (case fn of
        None \<Rightarrow> Inl TypeError
      | Some s \<Rightarrow>
          if isabs s then Inr s
          else (case packageDir e of
                  None \<Rightarrow> Inr (abspath e s)
                | Some andir \<Rightarrow> Inr (path_join andir s)))"

definition getConfigFromEnvironment :: "env \<Rightarrow> error + config" where
  "getConfigFromEnvironment e =
     (case packageDir e of
        None \<Rightarrow>
          if \<not> path_exists e ''andConfig.py'' then Inl RuntimeError
          else load_config e ''andConfig.py''
      | Some anDir \<Rightarrow>
          if \<not> path_exists e (path_join anDir ''andConfig.py'') then Inl RuntimeError
          else load_config e (path_join anDir ''andConfig.py''))"

subsection \<open>MultiIndexCache\<close>

record handle =
  filenameList :: "fname list"
  healpix :: int
  nside :: int
  mi :: "multiindex option"
  loaded :: bool
  log :: "log_record list"

text \<open>
  A method returns the object as the call leaves it, and \<open>Some\<close> of the exception when it
  raises: what a method has assigned before it raises stays assigned.
\<close>

definition MultiIndexCache :: "fname list \<Rightarrow> int \<Rightarrow> int \<Rightarrow> error + handle" where
  "MultiIndexCache fnl hp ns =
     (if length fnl < 2 then Inl RuntimeError
      else Inr \<lparr>filenameList = fnl, healpix = hp, nside = ns, mi = None,
                loaded = False, log = []\<rparr>)"

text \<open>
  The loop of \<open>read\<close> over \<open>enumerate(self._filenameList[1:])\<close>: \<open>i\<close> is the position
  in the filename list, \<open>m\<close> the native structure and \<open>lg\<close> the log so far. A constructor
  call never yields \<open>None\<close>, so the check that follows \<open>MultiIndex(fn)\<close> in \<open>read\<close> has
  no branch of its own.
\<close>

fun read_parts ::
  "env \<Rightarrow> nat \<Rightarrow> fname list \<Rightarrow> multiindex \<Rightarrow> log_record list
     \<Rightarrow> (multiindex \<times> log_record list) \<times> error option" where
  "read_parts e i [] m lg = ((m, lg), None)"
| "read_parts e i (None # fns) m lg = read_parts e (Suc i) fns m (lg @ [DebugNoPart])"
| "read_parts e i (Some s # fns) m lg =
     (case getIndexPath e (Some s) of
        Inl err \<Rightarrow> ((m, lg), Some err)
      | Inr fn \<Rightarrow>
          if \<not> path_exists e fn then read_parts e (Suc i) fns m (lg @ [WarnNoFile fn])
          else (case addIndex e m fn of
                  Inl err \<Rightarrow> ((m, lg @ [DebugReading fn]), Some err)
                | Inr m1 \<Rightarrow>
                    (case mi_getitem m1 i of
                       Inl err \<Rightarrow> ((m1, lg @ [DebugReading fn]), Some err)
                     | Inr ind \<Rightarrow>
                         read_parts e (Suc i) fns m1
                           (lg @ [DebugReading fn,
                                  DebugIndexInfo (indexid ind) (ind_healpix ind) (hpnside ind)
                                    (nstars ind) (nquads ind)]))))"

definition read :: "env \<Rightarrow> handle \<Rightarrow> handle \<times> error option" where
  "read e self =
     (case mi self of
        Some _ \<Rightarrow> (self, None)
      | None \<Rightarrow>
          (case filenameList self of
             [] \<Rightarrow> (self, Some IndexError)
           | f0 # rest \<Rightarrow>
               (case getIndexPath e f0 of
                  Inl err \<Rightarrow> (self, Some err)
                | Inr fn \<Rightarrow>
                    if \<not> path_exists e fn then (self, Some RuntimeError)
                    else (case MultiIndex e fn of
                            Inl err \<Rightarrow> (self, Some err)
                          | Inr m \<Rightarrow>
                              (case read_parts e 0 rest m (log self) of
                                 ((m', lg'), r) \<Rightarrow> (self\<lparr>mi := Some m', log := lg'\<rparr>, r))))))"

definition reload :: "env \<Rightarrow> handle \<Rightarrow> handle \<times> error option" where
  "reload e self =
     (if loaded self then (self, None)
      else (case mi self of
              None \<Rightarrow>
                (case read e self of
                   (s1, Some err) \<Rightarrow> (s1, Some err)
                 | (s1, None) \<Rightarrow> (s1\<lparr>loaded := True\<rparr>, None))
            | Some m \<Rightarrow>
                (case mi_reload e m of
                   Inl err \<Rightarrow> (self, Some err)
                 | Inr m' \<Rightarrow> (self\<lparr>mi := Some m', loaded := True\<rparr>, None))))"

text \<open>\<open>self._mi.unload()\<close> on \<open>None\<close> would raise \<open>AttributeError\<close>.\<close>

definition unload :: "handle \<Rightarrow> handle \<times> error option" where
  "unload self =
     (if \<not> loaded self then (self, None)
      else (case mi self of
              None \<Rightarrow> (self, Some AttributeError)
            | Some m \<Rightarrow> (self\<lparr>mi := Some (mi_unload m), loaded := False\<rparr>, None)))"

text \<open>
  \<open>healpixDistance\<close> is the native function and \<open>le\<close> the comparison of angles; both are
  parameters. Python's \<open>or\<close> evaluates its second operand only when the first is false.
\<close>

definition isWithinRange ::
  "(int \<Rightarrow> int \<Rightarrow> 'c \<Rightarrow> error + 'a) \<Rightarrow> ('a \<Rightarrow> 'a \<Rightarrow> bool) \<Rightarrow> handle \<Rightarrow> 'c \<Rightarrow> 'a
     \<Rightarrow> error + bool" where
  "isWithinRange healpixDistance le self coord distance =
     (if healpix self = - 1 then Inr True
      else (case healpixDistance (healpix self) (nside self) coord of
              Inl err \<Rightarrow> Inl err
            | Inr d \<Rightarrow> Inr (le d distance)))"

text \<open>\<open>__getitem__\<close>: reload, then index the native structure.\<close>

definition getitem :: "env \<Rightarrow> handle \<Rightarrow> nat \<Rightarrow> handle \<times> (error + index_t)" where
  "getitem e self i =
     (case reload e self of
        (s1, Some err) \<Rightarrow> (s1, Inl err)
      | (s1, None) \<Rightarrow>
          (case mi s1 of
             None \<Rightarrow> (s1, Inl TypeError)
           | Some m \<Rightarrow> (s1, mi_getitem m i)))"

text \<open>\<open>__len__\<close>: the first filename is the multi-index, the rest are the indices.\<close>

definition len :: "handle \<Rightarrow> int" where
  "len self = int (length (filenameList self)) - 1"

text \<open>
  The generator \<open>self[i] ... for i in range(len(self))\<close>: every access goes through
  \<open>__getitem__\<close>, and the first one that raises ends the generator.
\<close>

fun getitems :: "env \<Rightarrow> handle \<Rightarrow> nat list \<Rightarrow> handle \<times> (error + index_t list)" where
  "getitems e self [] = (self, Inr [])"
| "getitems e self (i # js) =
     (case getitem e self i of
        (s1, Inl err) \<Rightarrow> (s1, Inl err)
      | (s1, Inr ind) \<Rightarrow>
          (case getitems e s1 js of
             (s2, Inl err) \<Rightarrow> (s2, Inl err)
           | (s2, Inr inds) \<Rightarrow> (s2, Inr (ind # inds))))"

text \<open>
  \<open>fromFilenameList\<close>: the two sets are the distinct values among the parts; each of the
  two assertions asks for exactly one.
\<close>

definition fromFilenameList :: "env \<Rightarrow> fname list \<Rightarrow> error + handle" where
  "fromFilenameList e fnl =
     (case MultiIndexCache fnl 0 0 of
        Inl err \<Rightarrow> Inl err
      | Inr self \<Rightarrow>
          (case reload e self of
             (s1, Some err) \<Rightarrow> Inl err
           | (s1, None) \<Rightarrow>
               (case getitems e s1 [0..<nat (len s1)] of
                  (s2, Inl err) \<Rightarrow> Inl err
                | (s2, Inr inds1) \<Rightarrow>
                    (case getitems e s2 [0..<nat (len s2)] of
                       (s3, Inl err) \<Rightarrow> Inl err
                     | (s3, Inr inds2) \<Rightarrow>
                         (case remdups (map ind_healpix inds1) of
                            [hp] \<Rightarrow>
                              (case remdups (map hpnside inds2) of
                                 [ns] \<Rightarrow> Inr (s3\<lparr>healpix := hp, nside := ns\<rparr>)
                               | _ \<Rightarrow> Inl AssertionError)
                          | _ \<Rightarrow> Inl AssertionError)))))"

subsection \<open>AstrometryNetCatalog\<close>

record catalog =
  config :: config
  multiInds :: "handle list"

definition cacheFilename :: string where
  "cacheFilename = ''andCache.fits''"

text \<open>A list comprehension whose element expression may raise: the first failure ends it.\<close>

fun mapM :: "('a \<Rightarrow> error + 'b) \<Rightarrow> 'a list \<Rightarrow> error + 'b list" where
  "mapM f [] = Inr []"
| "mapM f (x # xs) =
     (case f x of
        Inl err \<Rightarrow> Inl err
      | Inr y \<Rightarrow> (case mapM f xs of Inl err \<Rightarrow> Inl err | Inr ys \<Rightarrow> Inr (y # ys)))"

text \<open>\<open>zip(indexFiles, indexFiles)\<close> pairs every single-index filename with itself.\<close>

definition initFromIndexFiles :: "env \<Rightarrow> config \<Rightarrow> error + handle list" where
  "initFromIndexFiles e andConfig =
     mapM (fromFilenameList e)
       (map (\<lambda>f. [f, f]) (indexFiles andConfig) @ multiIndexFiles andConfig)"

text \<open>\<open>len(fn)\<close> raises \<open>TypeError\<close> on \<open>None\<close>; \<open>max\<close> of no value raises \<open>ValueError\<close>.\<close>

definition str_len :: "fname \<Rightarrow> error + nat" where
  "str_len fn = (case fn of None \<Rightarrow> Inl TypeError | Some s \<Rightarrow> Inr (length s))"

definition py_max :: "nat list \<Rightarrow> error + nat" where
  "py_max ns = (case ns of [] \<Rightarrow> Inl ValueError | n # rest \<Rightarrow> Inr (fold max rest n))"

text \<open>
  A cell of the filename column keeps at most the column's width; the loop that fills the
  column runs only after \<open>len\<close> has accepted every filename, so \<open>None\<close> never reaches it.
  The column holds ASCII only: \<open>writeCache\<close> raises on a filename with a character
  beyond it. A string is the list of the filename's characters, and a character beyond
  ASCII is one of code 128 or more.
\<close>

definition store_str :: "nat \<Rightarrow> fname \<Rightarrow> string" where
  "store_str w fn = (case fn of None \<Rightarrow> [] | Some s \<Rightarrow> take w s)"

definition is_ascii :: "fname \<Rightarrow> bool" where
  "is_ascii fn = (case fn of None \<Rightarrow> True | Some s \<Rightarrow> list_all (\<lambda>c. (of_char c :: nat) < 128) s)"

text \<open>
  A column of format \<open>K\<close> takes a value of magnitude below \<open>2^64\<close> modulo \<open>2^64\<close> and
  gives it back as a signed number; on a larger magnitude the conversion raises
  \<open>OverflowError\<close>.
\<close>

definition fits_K :: "int \<Rightarrow> bool" where
  "fits_K x \<longleftrightarrow> \<bar>x\<bar> < 2 ^ 64"

text \<open>
  The rows of the two tables when every cell can be filled: the handle table is numbered
  by \<open>np.arange\<close>, the filename table by the \<open>enumerate\<close> of the loop.
\<close>

definition first_rows :: "handle list \<Rightarrow> (64 word \<times> 64 word \<times> 64 word) list" where
  "first_rows inds =
     map (\<lambda>(j, ind). (of_nat j, word_of_int (healpix ind), word_of_int (nside ind)))
       (enumerate 0 inds)"

definition second_rows :: "nat \<Rightarrow> handle list \<Rightarrow> (64 word \<times> string) list" where
  "second_rows maxLength inds =
     concat (map (\<lambda>(j, ind). map (\<lambda>fn. (of_nat j, store_str maxLength fn)) (filenameList ind))
       (enumerate 0 inds))"

definition first_table :: "handle list \<Rightarrow> error + (64 word \<times> 64 word \<times> 64 word) list" where
  "first_table inds =
     (if list_all (\<lambda>ind. fits_K (healpix ind) \<and> fits_K (nside ind)) inds
      then Inr (first_rows inds)
      else Inl OverflowError)"

definition second_table :: "nat \<Rightarrow> handle list \<Rightarrow> error + (64 word \<times> string) list" where
  "second_table maxLength inds =
     (if list_all is_ascii (concat (map filenameList inds))
      then Inr (second_rows maxLength inds)
      else Inl UnicodeError)"

text \<open>
  \<open>writeCache\<close> returns the environment in which the cache file exists with the two
  tables as its content.
\<close>

definition writeCache :: "env \<Rightarrow> catalog \<Rightarrow> error + env" where
  "writeCache e self =
     (case getIndexPath e (Some cacheFilename) of
        Inl err \<Rightarrow> Inl err
      | Inr outName \<Rightarrow>
          (case mapM str_len (concat (map filenameList (multiInds self))) of
             Inl err \<Rightarrow> Inl err
           | Inr lens \<Rightarrow>
               (case py_max lens of
                  Inl err \<Rightarrow> Inl err
                | Inr mx \<Rightarrow>
                    (case first_table (multiInds self) of
                       Inl err \<Rightarrow> Inl err
                     | Inr ft \<Rightarrow>
                         (case second_table (mx + 1) (multiInds self) of
                            Inl err \<Rightarrow> Inl err
                          | Inr st \<Rightarrow>
                              if \<not> fits_writable e outName then Inl OSError
                              else Inr (e\<lparr>path_exists := (path_exists e)(outName := True),
                                          fits_open := (fits_open e)(outName :=
                                            Inr \<lparr>first = ft, second = st\<rparr>)\<rparr>))))))"

text \<open>
  Reading the filename column: an item of the column comes without the white space and the
  padding at its end (\<open>rstrip\<close>; the characters that Python counts as white space within
  ASCII, and the padding character of code 0).
\<close>

definition is_space :: "char \<Rightarrow> bool" where
  "is_space c =
     (let n = (of_char c :: nat) in n = 0 \<or> (9 \<le> n \<and> n \<le> 13) \<or> (28 \<le> n \<and> n \<le> 32))"

definition rstrip :: "string \<Rightarrow> string" where
  "rstrip s = rev (dropWhile is_space (rev s))"

definition filename_field :: "cache_file \<Rightarrow> (64 word \<times> string) list" where
  "filename_field hduList = map (\<lambda>(i, fn). (i, rstrip fn)) (second hduList)"

text \<open>What a filename written to a column of width \<open>w\<close> reads back as.\<close>

definition read_str :: "nat \<Rightarrow> fname \<Rightarrow> string" where
  "read_str w fn = rstrip (store_str w fn)"

text \<open>The join of the two tables: \<open>filenames[id2].append(fn)\<close> raises \<open>KeyError\<close> on an
  id that the first table does not hold.\<close>

fun join_rows ::
  "(64 word \<rightharpoonup> string list) \<Rightarrow> (64 word \<times> string) list \<Rightarrow> error + (64 word \<rightharpoonup> string list)" where
  "join_rows filenames [] = Inr filenames"
| "join_rows filenames ((id2, fn) # rows) =
     (case filenames id2 of
        None \<Rightarrow> Inl KeyError
      | Some l \<Rightarrow> join_rows (filenames(id2 \<mapsto> l @ [fn])) rows)"

definition joinCache :: "cache_file \<Rightarrow> error + handle list" where
  "joinCache hduList =
     (case join_rows (fold (\<lambda>(i, hp, ns) m. m(i \<mapsto> [])) (first hduList) Map.empty)
             (filename_field hduList) of
        Inl err \<Rightarrow> Inl err
      | Inr filenames \<Rightarrow>
          mapM (\<lambda>(i, hp, ns).
                  case filenames i of
                    None \<Rightarrow> Inl KeyError
                  | Some l \<Rightarrow> MultiIndexCache (map Some l) (sint hp) (sint ns))
            (first hduList))"

definition cacheFiles :: "cache_file \<Rightarrow> fname set" where
  "cacheFiles hduList = set (map (\<lambda>(i, fn). Some fn) (filename_field hduList))"

definition configFiles :: "config \<Rightarrow> fname set" where
  "configFiles cfg = set (concat (multiIndexFiles cfg) @ indexFiles cfg)"

text \<open>The \<open>assert\<close> statement is modelled as the interpreter runs it by default.\<close>

definition initFromCache :: "env \<Rightarrow> config \<Rightarrow> string \<Rightarrow> error + handle list" where
  "initFromCache e cfg filename =
     (case fits_open e filename of
        Inl err \<Rightarrow> Inl err
      | Inr hduList \<Rightarrow>
          (case joinCache hduList of
             Inl err \<Rightarrow> Inl err
           | Inr inds \<Rightarrow>
               if cacheFiles hduList = configFiles cfg then Inr inds
               else Inl AssertionError))"

definition AstrometryNetCatalog :: "env \<Rightarrow> config \<Rightarrow> error + catalog" where
  "AstrometryNetCatalog e andConfig =
     (case getIndexPath e (Some cacheFilename) of
        Inl err \<Rightarrow> Inl err
      | Inr cacheName \<Rightarrow>
          (case (if allowCache andConfig \<and> path_exists e cacheName
                 then initFromCache e andConfig cacheName
                 else initFromIndexFiles e andConfig) of
             Inl err \<Rightarrow> Inl err
           | Inr inds \<Rightarrow> Inr \<lparr>config = andConfig, multiInds = inds\<rparr>))"

subsection \<open>generateCache\<close>

fun reload_all :: "env \<Rightarrow> handle list \<Rightarrow> handle list \<times> error option" where
  "reload_all e [] = ([], None)"
| "reload_all e (h # hs) =
     (case reload e h of
        (h1, Some err) \<Rightarrow> (h1 # hs, Some err)
      | (h1, None) \<Rightarrow> (case reload_all e hs of (hs1, r) \<Rightarrow> (h1 # hs1, r)))"

fun unload_all :: "handle list \<Rightarrow> handle list \<times> error option" where
  "unload_all [] = ([], None)"
| "unload_all (h # hs) =
     (case unload h of
        (h1, Some err) \<Rightarrow> (h1 # hs, Some err)
      | (h1, None) \<Rightarrow> (case unload_all hs of (hs1, r) \<Rightarrow> (h1 # hs1, r)))"

text \<open>
  The result is the registry as the call leaves it (\<open>None\<close> when none was built), the
  environment, and the exception that propagates, if any. An exception of the
  \<open>finally\<close> block replaces the one of the \<open>try\<close> block.
\<close>

definition generateCache ::
  "env \<Rightarrow> config option \<Rightarrow> (catalog option \<times> env) \<times> error option" where
  "generateCache e andConfig =
     (case (case andConfig of None \<Rightarrow> getConfigFromEnvironment e | Some c \<Rightarrow> Inr c) of
        Inl err \<Rightarrow> ((None, e), Some err)
      | Inr c \<Rightarrow>
          (case AstrometryNetCatalog e c of
             Inl err \<Rightarrow> ((None, e), Some err)
           | Inr cat \<Rightarrow>
               (case reload_all e (multiInds cat) of
                  (inds1, r1) \<Rightarrow>
                    (case (case r1 of
                             Some err \<Rightarrow> (e, Some err)
                           | None \<Rightarrow>
                               (case writeCache e (cat\<lparr>multiInds := inds1\<rparr>) of
                                  Inl err \<Rightarrow> (e, Some err)
                                | Inr e1 \<Rightarrow> (e1, None))) of
                       (e2, r2) \<Rightarrow>
                         (case unload_all inds1 of
                            (inds3, r3) \<Rightarrow>
                              ((Some (cat\<lparr>multiInds := inds3\<rparr>), e2),
                               (case r3 of Some err \<Rightarrow> Some err | None \<Rightarrow> r2)))))))"

subsection \<open>States of a handle\<close>

text \<open>
  The states a handle takes from its construction on, whatever the environment is at
  each call, and whether the call returns or raises.
\<close>

inductive reachable :: "handle \<Rightarrow> bool" where
  init: "MultiIndexCache fnl hp ns = Inr h \<Longrightarrow> reachable h"
| from_list: "fromFilenameList e fnl = Inr h \<Longrightarrow> reachable h"
| after_read: "reachable h \<Longrightarrow> reachable (fst (read e h))"
| after_reload: "reachable h \<Longrightarrow> reachable (fst (reload e h))"
| after_unload: "reachable h \<Longrightarrow> reachable (fst (unload h))"

text \<open>What the constructor establishes and every method keeps.\<close>

definition handle_inv :: "handle \<Rightarrow> bool" where
  "handle_inv h \<longleftrightarrow> 2 \<le> length (filenameList h) \<and> (loaded h \<longrightarrow> mi h \<noteq> None)"

text \<open>The handle that \<open>MultiIndexCache(filenameList, healpix, nside)\<close> builds from the
  metadata of \<open>h\<close>.\<close>

definition unread :: "handle \<Rightarrow> handle" where
  "unread h = \<lparr>filenameList = filenameList h, healpix = healpix h, nside = nside h,
               mi = None, loaded = False, log = []\<rparr>"

text \<open>The values a column of format \<open>K\<close> holds.\<close>

definition int64 :: "int \<Rightarrow> bool" where
  "int64 x \<longleftrightarrow> - (2 ^ 63) \<le> x \<and> x < 2 ^ 63"

text \<open>An entry that the loop of \<open>read\<close> passes over: \<open>None\<close>, or a path that does not
  exist.\<close>

definition part_skipped :: "env \<Rightarrow> fname \<Rightarrow> bool" where
  "part_skipped e fn =
     (case fn of
        None \<Rightarrow> True
      | Some s \<Rightarrow> (case getIndexPath e fn of Inl err \<Rightarrow> False | Inr p \<Rightarrow> \<not> path_exists e p))"

subsection \<open>A concrete installation\<close>

text \<open>
  Two single-index files \<open>idx1.fits\<close> and \<open>idx2.fits\<close> under the data directory
  \<open>/data\<close>, in the healpix cells 10 and 20 at nside 4, and no cache file yet.
\<close>

definition example_env :: env where
  "example_env =
     \<lparr>packageDir = Some ''/data'',
      abspath = (\<lambda>s. ''/cwd/'' @ s),
      path_exists = (\<lambda>p. p = ''/data/idx1.fits'' \<or> p = ''/data/idx2.fits''),
      native_multiindex = (\<lambda>p. True),
      native_index = (\<lambda>p.
        if p = ''/data/idx1.fits''
        then Some \<lparr>indexid = 1, ind_healpix = 10, hpnside = 4, nstars = 100, nquads = 50\<rparr>
        else if p = ''/data/idx2.fits''
        then Some \<lparr>indexid = 2, ind_healpix = 20, hpnside = 4, nstars = 120, nquads = 60\<rparr>
        else None),
      native_reload = (\<lambda>p. True),
      fits_open = (\<lambda>p. Inl OSError),
      fits_writable = (\<lambda>p. True),
      load_config = (\<lambda>p. Inl OSError)\<rparr>"

definition example_config :: config where
  "example_config =
     \<lparr>indexFiles = [Some ''idx1.fits'', Some ''idx2.fits''], multiIndexFiles = [],
      allowCache = True\<rparr>"

definition unread1 :: handle where
  "unread1 =
     \<lparr>filenameList = [Some ''idx1.fits'', Some ''idx1.fits''], healpix = 10, nside = 4,
      mi = None, loaded = False, log = []\<rparr>"

definition unread2 :: handle where
  "unread2 =
     \<lparr>filenameList = [Some ''idx2.fits'', Some ''idx2.fits''], healpix = 20, nside = 4,
      mi = None, loaded = False, log = []\<rparr>"

definition example_index1 :: handle where
  "example_index1 =
     \<lparr>filenameList = [Some ''idx1.fits'', Some ''idx1.fits''], healpix = 10, nside = 4,
      mi = Some \<lparr>mi_name = ''/data/idx1.fits'',
                 mi_inds = [\<lparr>indexid = 1, ind_healpix = 10, hpnside = 4, nstars = 100,
                             nquads = 50\<rparr>],
                 mi_resident = True\<rparr>,
      loaded = True,
      log = [DebugReading ''/data/idx1.fits'', DebugIndexInfo 1 10 4 100 50]\<rparr>"

definition example_index2 :: handle where
  "example_index2 =
     \<lparr>filenameList = [Some ''idx2.fits'', Some ''idx2.fits''], healpix = 20, nside = 4,
      mi = Some \<lparr>mi_name = ''/data/idx2.fits'',
                 mi_inds = [\<lparr>indexid = 2, ind_healpix = 20, hpnside = 4, nstars = 120,
                             nquads = 60\<rparr>],
                 mi_resident = True\<rparr>,
      loaded = True,
      log = [DebugReading ''/data/idx2.fits'', DebugIndexInfo 2 20 4 120 60]\<rparr>"

definition example_catalog :: catalog where
  "example_catalog = \<lparr>config = example_config, multiInds = [example_index1, example_index2]\<rparr>"

definition empty_catalog :: catalog where
  "empty_catalog = \<lparr>config = example_config, multiInds = []\<rparr>"

text \<open>The cache file of \<open>example_catalog\<close>, and the installation once it is written.\<close>

definition example_cache :: cache_file where
  "example_cache =
     \<lparr>first = [(0, 10, 4), (1, 20, 4)],
      second = [(0, ''idx1.fits''), (0, ''idx1.fits''), (1, ''idx2.fits''), (1, ''idx2.fits'')]\<rparr>"

definition cached_env :: env where
  "cached_env =
     example_env\<lparr>path_exists := (path_exists example_env)(''/data/andCache.fits'' := True),
                 fits_open := (fits_open example_env)(''/data/andCache.fits'' := Inr example_cache)\<rparr>"

text \<open>A configuration that declares one file more, and one that declares the same files
  in another grouping and with a duplicate.\<close>

definition wider_config :: config where
  "wider_config =
     \<lparr>indexFiles = [Some ''idx1.fits'', Some ''idx2.fits'', Some ''idx3.fits''],
      multiIndexFiles = [], allowCache = True\<rparr>"

definition regrouped_config :: config where
  "regrouped_config =
     \<lparr>indexFiles = [Some ''idx2.fits''],
      multiIndexFiles = [[Some ''idx1.fits'', Some ''idx1.fits'', Some ''idx2.fits'']],
      allowCache = True\<rparr>"

text \<open>A handle with no sky restriction, and one whose first part is \<open>None\<close> and whose
  second part exists.\<close>

definition whole_sky :: handle where
  "whole_sky =
     \<lparr>filenameList = [Some ''idx1.fits'', Some ''idx1.fits''], healpix = - 1, nside = 4,
      mi = None, loaded = False, log = []\<rparr>"

definition skipped_then_present :: handle where
  "skipped_then_present =
     \<lparr>filenameList = [Some ''idx1.fits'', None, Some ''idx2.fits''], healpix = 10, nside = 4,
      mi = None, loaded = False, log = []\<rparr>"

text \<open>
  The registry the constructor builds from that cache file, the handles of
  \<open>example_catalog\<close> once unloaded, the installation with a cache file that cannot be
  written, and the one where \<open>idx2.fits\<close> has gone.
\<close>

definition cached_catalog :: catalog where
  "cached_catalog = \<lparr>config = example_config, multiInds = [unread1, unread2]\<rparr>"

definition unloaded1 :: handle where
  "unloaded1 =
     \<lparr>filenameList = [Some ''idx1.fits'', Some ''idx1.fits''], healpix = 10, nside = 4,
      mi = Some \<lparr>mi_name = ''/data/idx1.fits'',
                 mi_inds = [\<lparr>indexid = 1, ind_healpix = 10, hpnside = 4, nstars = 100,
                             nquads = 50\<rparr>],
                 mi_resident = False\<rparr>,
      loaded = False,
      log = [DebugReading ''/data/idx1.fits'', DebugIndexInfo 1 10 4 100 50]\<rparr>"

definition unloaded2 :: handle where
  "unloaded2 =
     \<lparr>filenameList = [Some ''idx2.fits'', Some ''idx2.fits''], healpix = 20, nside = 4,
      mi = Some \<lparr>mi_name = ''/data/idx2.fits'',
                 mi_inds = [\<lparr>indexid = 2, ind_healpix = 20, hpnside = 4, nstars = 120,
                             nquads = 60\<rparr>],
                 mi_resident = False\<rparr>,
      loaded = False,
      log = [DebugReading ''/data/idx2.fits'', DebugIndexInfo 2 20 4 120 60]\<rparr>"

definition readonly_env :: env where
  "readonly_env = cached_env\<lparr>fits_writable := (\<lambda>p. False)\<rparr>"

definition missing_env :: env where
  "missing_env =
     cached_env\<lparr>path_exists := (\<lambda>p. p = ''/data/idx1.fits'' \<or> p = ''/data/andCache.fits'')\<rparr>"

text \<open>
  An installation whose single index file has a name that ends in a blank, the registry
  built from it, its cache file, and the installation once that file is written.
\<close>

definition blank_env :: env where
  "blank_env =
     \<lparr>packageDir = Some ''/data'',
      abspath = (\<lambda>s. ''/cwd/'' @ s),
      path_exists = (\<lambda>p. p = ''/data/a.fits ''),
      native_multiindex = (\<lambda>p. True),
      native_index = (\<lambda>p.
        if p = ''/data/a.fits ''
        then Some \<lparr>indexid = 1, ind_healpix = 10, hpnside = 4, nstars = 100, nquads = 50\<rparr>
        else None),
      native_reload = (\<lambda>p. True),
      fits_open = (\<lambda>p. Inl OSError),
      fits_writable = (\<lambda>p. True),
      load_config = (\<lambda>p. Inl OSError)\<rparr>"

definition blank_config :: config where
  "blank_config = \<lparr>indexFiles = [Some ''a.fits ''], multiIndexFiles = [], allowCache = True\<rparr>"

definition blank_catalog :: catalog where
  "blank_catalog =
     \<lparr>config = blank_config,
      multiInds =
        [\<lparr>filenameList = [Some ''a.fits '', Some ''a.fits ''], healpix = 10, nside = 4,
          mi = Some \<lparr>mi_name = ''/data/a.fits '',
                     mi_inds = [\<lparr>indexid = 1, ind_healpix = 10, hpnside = 4, nstars = 100,
                                 nquads = 50\<rparr>],
                     mi_resident = True\<rparr>,
          loaded = True,
          log = [DebugReading ''/data/a.fits '', DebugIndexInfo 1 10 4 100 50]\<rparr>]\<rparr>"

definition blank_cache :: cache_file where
  "blank_cache = \<lparr>first = [(0, 10, 4)], second = [(0, ''a.fits ''), (0, ''a.fits '')]\<rparr>"

definition blank_cached_env :: env where
  "blank_cached_env =
     blank_env\<lparr>path_exists := (path_exists blank_env)(''/data/andCache.fits'' := True),
               fits_open := (fits_open blank_env)(''/data/andCache.fits'' := Inr blank_cache)\<rparr>"

section \<open>Properties of a handle\<close>

subsection \<open>What the methods keep\<close>

lemma read_filenameList: "filenameList (fst (read e h)) = filenameList h"
  by (simp add: read_def split: option.splits list.splits sum.splits prod.splits)

lemma reload_filenameList: "filenameList (fst (reload e h)) = filenameList h"
  using read_filenameList [of e h]
  by (auto simp: reload_def split: option.splits sum.splits prod.splits)

lemma getitem_fst: "fst (getitem e h i) = fst (reload e h)"
  by (simp add: getitem_def split: prod.splits option.splits)

lemma getitems_filenameList: "filenameList (fst (getitems e h js)) = filenameList h"
proof (induction js arbitrary: h)
  case Nil
  show ?case by simp
next
  case (Cons i js)
  have "filenameList (fst (getitem e h i)) = filenameList h"
    by (simp add: getitem_fst reload_filenameList)
  with Cons [of "fst (getitem e h i)"] show ?case
    by (auto split: prod.splits sum.splits)
qed

lemma handle_inv_init: "MultiIndexCache fnl hp ns = Inr h \<Longrightarrow> handle_inv h"
  by (auto simp: MultiIndexCache_def handle_inv_def split: if_splits)

lemma handle_inv_read: "handle_inv h \<Longrightarrow> handle_inv (fst (read e h))"
  unfolding handle_inv_def
  by (auto simp: read_def split: option.splits list.splits sum.splits prod.splits)

lemma handle_inv_reload: "handle_inv h \<Longrightarrow> handle_inv (fst (reload e h))"
  unfolding handle_inv_def
  by (auto simp: reload_def read_def
      split: option.splits list.splits sum.splits prod.splits if_splits)

lemma handle_inv_unload: "handle_inv h \<Longrightarrow> handle_inv (fst (unload h))"
  unfolding handle_inv_def
  by (auto simp: unload_def split: option.splits)

lemma getitems_inv: "handle_inv h \<Longrightarrow> handle_inv (fst (getitems e h js))"
proof (induction js arbitrary: h)
  case Nil
  then show ?case by simp
next
  case (Cons i js)
  have "handle_inv (fst (getitem e h i))"
    using Cons.prems by (simp add: getitem_fst handle_inv_reload)
  with Cons.IH [of "fst (getitem e h i)"] show ?case
    by (auto split: prod.splits sum.splits)
qed

text \<open>A handle built by \<open>fromFilenameList\<close> carries the list it was given.\<close>

lemma fromFilenameList_Inr:
  assumes "fromFilenameList e fnl = Inr h"
  shows "filenameList h = fnl \<and> handle_inv h"
proof -
  from assms obtain s0 where s0: "MultiIndexCache fnl 0 0 = Inr s0"
    by (auto simp: fromFilenameList_def split: sum.splits)
  define s1 where "s1 = fst (reload e s0)"
  define s2 where "s2 = fst (getitems e s1 [0..<nat (len s1)])"
  define s3 where "s3 = fst (getitems e s2 [0..<nat (len s2)])"
  from assms s0 obtain hp ns where h: "h = s3\<lparr>healpix := hp, nside := ns\<rparr>"
    by (auto simp: fromFilenameList_def s1_def s2_def s3_def
        split: sum.splits prod.splits option.splits list.splits)
  have "filenameList s0 = fnl" and i0: "handle_inv s0"
    using s0 by (auto simp: MultiIndexCache_def handle_inv_def split: if_splits)
  then have "filenameList s3 = fnl"
    by (simp add: s3_def s2_def s1_def getitems_filenameList reload_filenameList)
  moreover have "handle_inv s3"
    using i0 by (simp add: s3_def s2_def s1_def getitems_inv handle_inv_reload)
  ultimately show ?thesis
    by (simp add: h handle_inv_def)
qed

lemma reachable_inv: "reachable h \<Longrightarrow> handle_inv h"
  by (induction rule: reachable.induct)
     (auto intro: handle_inv_init handle_inv_read handle_inv_reload handle_inv_unload
        dest: fromFilenameList_Inr)

subsection \<open>The concrete installation, evaluated\<close>

lemma example_fromFilenameList:
  "fromFilenameList example_env [Some ''idx1.fits'', Some ''idx1.fits''] = Inr example_index1"
  "fromFilenameList example_env [Some ''idx2.fits'', Some ''idx2.fits''] = Inr example_index2"
  by code_simp+

lemma example_reload: "reload example_env unread1 = (example_index1, None)"
  by code_simp

lemma example_reachable: "reachable example_index1" "reachable example_index2"
  by (rule reachable.from_list, rule example_fromFilenameList)+

subsection \<open>reload, isWithinRange, the load state\<close>

text \<open>
  C3. On a handle whose \<open>loaded\<close> flag is set, \<open>reload\<close> returns at once and changes
  nothing. A \<open>reload\<close> that returns leaves the flag set, and a second \<open>reload\<close> right
  after it, in whatever environment, leaves the handle as the first one left it: the
  read path does not run again.
\<close>

theorem reload_idempotent:
  "(loaded h \<longrightarrow> reload e h = (h, None)) \<and>
   (reload e h = (h', None) \<longrightarrow> loaded h' \<and> reload e' h' = (h', None))"
  by (auto simp: reload_def split: option.splits sum.splits prod.splits if_splits)

theorem reload_idempotent_witness:
  "reload example_env unread1 = (example_index1, None) \<and> loaded example_index1 \<and>
   reload example_env example_index1 = (example_index1, None)"
  using reload_idempotent [of unread1 example_env example_index1 example_env] example_reload
  by simp

text \<open>
  C5. With healpix \<open>-1\<close>, \<open>isWithinRange\<close> is true for every coordinate and distance,
  whatever the native distance function would return or raise; with any other healpix it
  is the comparison of the native distance with the given one.
\<close>

theorem isWithinRange_sentinel:
  "(healpix h = - 1 \<longrightarrow> isWithinRange dist le h coord distance = Inr True) \<and>
   (healpix h \<noteq> - 1 \<longrightarrow>
      isWithinRange dist le h coord distance =
        (case dist (healpix h) (nside h) coord of
           Inl err \<Rightarrow> Inl err
         | Inr d \<Rightarrow> Inr (le d distance)))"
  by (simp add: isWithinRange_def)

theorem isWithinRange_sentinel_witness:
  "isWithinRange (\<lambda>hp ns c. Inl NativeError) (\<le>) whole_sky (0::int, 0::int) (0::int) = Inr True \<and>
   isWithinRange (\<lambda>hp ns c. Inr (hp + ns)) (\<le>) unread1 (0::int, 0::int) (14::int) = Inr True \<and>
   isWithinRange (\<lambda>hp ns c. Inr (hp + ns)) (\<le>) unread1 (0::int, 0::int) (13::int) = Inr False"
  using
    isWithinRange_sentinel [of whole_sky "\<lambda>hp ns c. Inl NativeError" "(\<le>)"
      "(0::int, 0::int)" "0::int"]
    isWithinRange_sentinel [of unread1 "\<lambda>hp ns c. Inr (hp + ns)" "(\<le>)"
      "(0::int, 0::int)" "14::int"]
    isWithinRange_sentinel [of unread1 "\<lambda>hp ns c. Inr (hp + ns)" "(\<le>)"
      "(0::int, 0::int)" "13::int"]
  by (simp add: whole_sky_def unread1_def)

text \<open>
  C8. In every state that a handle reaches from either constructor through calls of
  \<open>read\<close>, \<open>reload\<close> and \<open>unload\<close>, returning or raising, a set \<open>loaded\<close> flag comes
  with a native structure; \<open>unload\<close> never meets \<open>None\<close> there, and on a handle that is
  not loaded it changes nothing.
\<close>

theorem reachable_loaded_mi:
  "reachable h \<Longrightarrow>
     (loaded h \<longrightarrow> mi h \<noteq> None) \<and> snd (unload h) = None \<and>
     (\<not> loaded h \<longrightarrow> unload h = (h, None))"
  using reachable_inv [of h]
  by (auto simp: handle_inv_def unload_def split: option.splits)

theorem reachable_loaded_mi_witness:
  "reachable unread1 \<and> unload unread1 = (unread1, None) \<and>
   reachable example_index1 \<and> mi example_index1 \<noteq> None \<and> snd (unload example_index1) = None"
proof -
  have "MultiIndexCache [Some ''idx1.fits'', Some ''idx1.fits''] 10 4 = Inr unread1"
    by (simp add: MultiIndexCache_def unread1_def)
  then have r0: "reachable unread1" by (rule reachable.init)
  from reachable.after_reload [OF r0, of example_env] have r1: "reachable example_index1"
    by (simp add: example_reload)
  have "\<not> loaded unread1" "loaded example_index1"
    by (simp_all add: unread1_def example_index1_def)
  with reachable_loaded_mi [OF r0] reachable_loaded_mi [OF r1] r0 r1 show ?thesis
    by simp
qed

text \<open>
  C4. A part that exists after an entry that was passed over is attached as the first part
  of the native structure, and the loop then asks the structure for the part at the
  entry's position in the filename list, which it does not hold: \<open>read\<close> raises. The
  length of the handle is the number of filenames less one, loaded or not.
\<close>

theorem read_part_after_skipped:
  "snd (read example_env skipped_then_present) = Some IndexError \<and>
   map_option mi_inds (mi (fst (read example_env skipped_then_present))) =
     Some [\<lparr>indexid = 2, ind_healpix = 20, hpnside = 4, nstars = 120, nquads = 60\<rparr>] \<and>
   len skipped_then_present = 2"
  by code_simp

text \<open>
  When every entry after the primary file is passed over, \<open>read\<close> returns: no part is
  attached, and the length still counts every declared part.
\<close>

lemma read_parts_skipped:
  "\<forall>fn\<in>set fns. part_skipped e fn \<Longrightarrow>
     snd (read_parts e i fns m lg) = None \<and> fst (fst (read_parts e i fns m lg)) = m"
proof (induction fns arbitrary: i lg)
  case Nil
  show ?case by simp
next
  case (Cons fn fns)
  then show ?case
    by (cases fn) (auto simp: part_skipped_def split: sum.splits)
qed

lemma read_tolerates_skipped:
  assumes "mi h = None" and "filenameList h = f0 # rest"
    and "getIndexPath e f0 = Inr p" and "path_exists e p" and "native_multiindex e p"
    and "\<forall>fn\<in>set rest. part_skipped e fn"
  shows "snd (read e h) = None \<and> len (fst (read e h)) = int (length rest) \<and>
         map_option mi_inds (mi (fst (read e h))) = Some []"
proof -
  let ?m = "\<lparr>mi_name = p, mi_inds = [], mi_resident = True\<rparr>"
  obtain m' lg' r where rp: "read_parts e 0 rest ?m (log h) = ((m', lg'), r)"
    by (cases "read_parts e 0 rest ?m (log h)") auto
  with read_parts_skipped [OF assms(6), of 0 ?m "log h"] have "r = None" "m' = ?m"
    by simp_all
  with rp assms(1-5) show ?thesis
    by (simp add: read_def MultiIndex_def len_def)
qed

text \<open>
  The example is no accident: once an entry has been passed over, the position of every
  later entry is past the attached parts, and the first later part that exists and loads
  makes \<open>read\<close> raise.
\<close>

lemma read_parts_behind:
  assumes "length (mi_inds m) < i"
    and "\<exists>fn\<in>set fns. \<not> part_skipped e fn"
    and "\<forall>fn\<in>set fns. part_skipped e fn \<or>
           (\<exists>p ind. getIndexPath e fn = Inr p \<and> native_index e p = Some ind)"
  shows "snd (read_parts e i fns m lg) = Some IndexError"
  using assms
proof (induction fns arbitrary: i lg)
  case Nil
  then show ?case by simp
next
  case (Cons fn fns)
  show ?case
  proof (cases "part_skipped e fn")
    case True
    with Cons.prems have ex: "\<exists>fn\<in>set fns. \<not> part_skipped e fn" by auto
    have lt: "length (mi_inds m) < Suc i" using Cons.prems(1) by simp
    have all: "\<forall>fn\<in>set fns. part_skipped e fn \<or>
           (\<exists>p ind. getIndexPath e fn = Inr p \<and> native_index e p = Some ind)"
      using Cons.prems(3) by simp
    from Cons.IH [OF lt ex all] True show ?thesis
      by (cases fn) (auto simp: part_skipped_def split: sum.splits)
  next
    case False
    with Cons.prems(3) obtain p ind where p: "getIndexPath e fn = Inr p"
      and ind: "native_index e p = Some ind" by auto
    from False p obtain s where s: "fn = Some s" and ex: "path_exists e p"
      by (cases fn) (auto simp: part_skipped_def)
    from Cons.prems(1) have "\<not> i < Suc (length (mi_inds m))" by simp
    with s p ex ind show ?thesis
      by (simp add: addIndex_def mi_getitem_def)
  qed
qed

lemma read_present_after_skipped:
  assumes "mi h = None" and "filenameList h = f0 # f1 # rest"
    and "getIndexPath e f0 = Inr p" and "path_exists e p" and "native_multiindex e p"
    and "part_skipped e f1"
    and "\<exists>fn\<in>set rest. \<not> part_skipped e fn"
    and "\<forall>fn\<in>set rest. part_skipped e fn \<or>
           (\<exists>p ind. getIndexPath e fn = Inr p \<and> native_index e p = Some ind)"
  shows "snd (read e h) = Some IndexError"
proof -
  let ?m = "\<lparr>mi_name = p, mi_inds = [], mi_resident = True\<rparr>"
  have "length (mi_inds ?m) < Suc 0" by simp
  from read_parts_behind [OF this assms(7,8)]
  have r: "snd (read_parts e (Suc 0) rest ?m lg) = Some IndexError" for lg .
  have "snd (read_parts e 0 (f1 # rest) ?m (log h)) = Some IndexError"
    using assms(6) r by (cases f1) (auto simp: part_skipped_def split: sum.splits)
  with assms(1-5) show ?thesis
    by (auto simp: read_def MultiIndex_def split: prod.splits)
qed

section \<open>Properties of the registry\<close>

subsection \<open>Comprehensions\<close>

lemma mapM_Inr_length: "mapM f xs = Inr ys \<Longrightarrow> length ys = length xs"
  by (induction xs arbitrary: ys) (auto split: sum.splits)

lemma mapM_Inr_map: "mapM f xs = Inr ys \<Longrightarrow> map Inr ys = map f xs"
  by (induction xs arbitrary: ys) (auto split: sum.splits)

lemma mapM_Inr_all:
  "mapM f xs = Inr ys \<Longrightarrow> (\<And>x y. f x = Inr y \<Longrightarrow> P y) \<Longrightarrow> \<forall>y\<in>set ys. P y"
  by (induction xs arbitrary: ys) (auto split: sum.splits)

lemma mapM_Inr_rel:
  "mapM f xs = Inr ys \<Longrightarrow> (\<And>x y. f x = Inr y \<Longrightarrow> g y = x) \<Longrightarrow> map g ys = xs"
  by (induction xs arbitrary: ys) (auto split: sum.splits)

lemma mapM_all_Inr: "\<forall>x\<in>set xs. f x = Inr (g x) \<Longrightarrow> mapM f xs = Inr (map g xs)"
  by (induction xs) auto

lemma mapM_map: "mapM f (map g xs) = mapM (\<lambda>x. f (g x)) xs"
  by (induction xs) (simp_all split: sum.splits)

subsection \<open>Construction from the index files\<close>

lemma example_initFromIndexFiles:
  "initFromIndexFiles example_env example_config = Inr [example_index1, example_index2]"
  by (simp add: initFromIndexFiles_def example_config_def example_fromFilenameList)

lemma example_AstrometryNetCatalog:
  "AstrometryNetCatalog example_env example_config = Inr example_catalog"
  by code_simp

text \<open>
  C7. When the construction from the index files returns, the registry holds, in this
  order, one handle for each single-index filename \<open>f\<close>, with the filename list
  \<open>[f, f]\<close>, and one for each multi-index group, in the order of the configuration; each
  handle is the one \<open>fromFilenameList\<close> returns for its list.
\<close>

theorem initFromIndexFiles_shape:
  "initFromIndexFiles e cfg = Inr inds \<Longrightarrow>
     map filenameList inds = map (\<lambda>f. [f, f]) (indexFiles cfg) @ multiIndexFiles cfg \<and>
     map Inr inds =
       map (fromFilenameList e) (map (\<lambda>f. [f, f]) (indexFiles cfg) @ multiIndexFiles cfg)"
  unfolding initFromIndexFiles_def
  using fromFilenameList_Inr mapM_Inr_rel [where g = filenameList] mapM_Inr_map
  by blast

theorem initFromIndexFiles_shape_witness:
  "initFromIndexFiles example_env example_config = Inr [example_index1, example_index2] \<and>
   map filenameList [example_index1, example_index2] =
     [[Some ''idx1.fits'', Some ''idx1.fits''], [Some ''idx2.fits'', Some ''idx2.fits'']] \<and>
   [Inr example_index1, Inr example_index2] =
     map (fromFilenameList example_env)
       [[Some ''idx1.fits'', Some ''idx1.fits''], [Some ''idx2.fits'', Some ''idx2.fits'']]"
  using initFromIndexFiles_shape [OF example_initFromIndexFiles] example_initFromIndexFiles
  by (simp add: example_config_def)

subsection \<open>The consistency check of the cache\<close>

lemma example_initFromCache:
  "initFromCache cached_env example_config ''/data/andCache.fits'' = Inr [unread1, unread2]"
  "initFromCache cached_env regrouped_config ''/data/andCache.fits'' = Inr [unread1, unread2]"
  "joinCache example_cache = Inr [unread1, unread2]"
  "fits_open cached_env ''/data/andCache.fits'' = Inr example_cache"
  by code_simp+

text \<open>
  C2. When the filenames of the cache file are not, as a set, the filenames that the
  configuration declares, the construction from the cache raises and no registry comes
  back: the exception is the failed consistency assertion, unless the join of the two
  tables or the construction of a handle has raised before the check is reached.
\<close>

theorem initFromCache_inconsistent:
  "fits_open e filename = Inr hduList \<Longrightarrow> cacheFiles hduList \<noteq> configFiles cfg \<Longrightarrow>
     \<exists>err. initFromCache e cfg filename = Inl err \<and>
       (err = AssertionError \<or> joinCache hduList = Inl err)"
  by (simp add: initFromCache_def split: sum.splits)

theorem initFromCache_inconsistent_witness:
  "fits_open cached_env ''/data/andCache.fits'' = Inr example_cache \<and>
   cacheFiles example_cache \<noteq> configFiles wider_config \<and>
   initFromCache cached_env wider_config ''/data/andCache.fits'' = Inl AssertionError"
proof -
  have ne: "cacheFiles example_cache \<noteq> configFiles wider_config"
    by code_simp
  from initFromCache_inconsistent [OF example_initFromCache(4) ne]
  show ?thesis
    using ne by (auto simp: example_initFromCache)
qed

text \<open>
  C10. The check reads the configuration only through the set of its filenames: two
  configurations with the same set, whatever the order, the duplicates and the grouping
  into multi-indexes, get the same answer from the same cache file.
\<close>

theorem initFromCache_set_only:
  "configFiles cfg1 = configFiles cfg2 \<Longrightarrow>
     initFromCache e cfg1 filename = initFromCache e cfg2 filename"
  by (simp add: initFromCache_def split: sum.splits)

theorem initFromCache_set_only_witness:
  "configFiles example_config = configFiles regrouped_config \<and>
   initFromCache cached_env example_config ''/data/andCache.fits'' =
     initFromCache cached_env regrouped_config ''/data/andCache.fits'' \<and>
   initFromCache cached_env regrouped_config ''/data/andCache.fits'' = Inr [unread1, unread2]"
proof -
  have eq: "configFiles example_config = configFiles regrouped_config"
    by code_simp
  from initFromCache_set_only [OF eq, of cached_env "''/data/andCache.fits''"] eq
  show ?thesis
    by (simp add: example_initFromCache)
qed

subsection \<open>Handles of a registry\<close>

lemma joinCache_inv:
  assumes "joinCache c = Inr inds"
  shows "\<forall>h\<in>set inds. handle_inv h"
proof -
  from assms obtain filenames where
    "mapM (\<lambda>(i, hp, ns). case filenames i of None \<Rightarrow> Inl KeyError
            | Some l \<Rightarrow> MultiIndexCache (map Some l) (sint hp) (sint ns)) (first c) = Inr inds"
    by (auto simp: joinCache_def split: sum.splits)
  then show ?thesis
    by (rule mapM_Inr_all) (auto split: option.splits dest: handle_inv_init)
qed

lemma initFromIndexFiles_inv:
  "initFromIndexFiles e cfg = Inr inds \<Longrightarrow> \<forall>h\<in>set inds. handle_inv h"
  unfolding initFromIndexFiles_def
  by (erule mapM_Inr_all) (simp add: fromFilenameList_Inr)

lemma catalog_inv:
  "AstrometryNetCatalog e c = Inr cat \<Longrightarrow> \<forall>h\<in>set (multiInds cat). handle_inv h"
  by (auto simp: AstrometryNetCatalog_def initFromCache_def
      split: sum.splits if_splits dest: joinCache_inv initFromIndexFiles_inv)

text \<open>A registry built from the index files passes the consistency check as it stands.\<close>

lemma initFromIndexFiles_consistent:
  assumes "initFromIndexFiles e cfg = Inr inds"
  shows "set (concat (map filenameList inds)) = configFiles cfg"
proof -
  have "map filenameList inds = map (\<lambda>f. [f, f]) (indexFiles cfg) @ multiIndexFiles cfg"
    using assms fromFilenameList_Inr mapM_Inr_rel [where g = filenameList]
    unfolding initFromIndexFiles_def by blast
  then show ?thesis
    by (auto simp: configFiles_def)
qed

subsection \<open>writeCache\<close>

lemma getIndexPath_cacheFilename: "\<exists>p. getIndexPath e (Some cacheFilename) = Inr p"
  by (simp add: getIndexPath_def split: option.splits)

lemma getIndexPath_env:
  "packageDir e' = packageDir e \<Longrightarrow> abspath e' = abspath e \<Longrightarrow>
     getIndexPath e' fn = getIndexPath e fn"
  by (simp add: getIndexPath_def split: option.splits)

lemma mapM_str_len:
  "mapM str_len fns = Inr lens \<Longrightarrow> None \<notin> set fns \<and> lens = map (\<lambda>fn. length (the fn)) fns"
  by (induction fns arbitrary: lens) (auto simp: str_len_def split: sum.splits option.splits)

lemma writeCache_empty: "multiInds cat = [] \<Longrightarrow> writeCache e cat = Inl ValueError"
  using getIndexPath_cacheFilename [of e]
  by (auto simp: writeCache_def py_max_def)

lemma writeCache_Inr:
  assumes "writeCache e cat = Inr e'"
  obtains outName lens mx where
    "getIndexPath e' (Some cacheFilename) = Inr outName"
    "mapM str_len (concat (map filenameList (multiInds cat))) = Inr lens"
    "py_max lens = Inr mx"
    "fits_open e' outName =
       Inr \<lparr>first = first_rows (multiInds cat), second = second_rows (Suc mx) (multiInds cat)\<rparr>"
    "path_exists e' outName"
    "list_all is_ascii (concat (map filenameList (multiInds cat)))"
proof -
  from assms obtain outName lens mx ft st where
    p: "getIndexPath e (Some cacheFilename) = Inr outName"
    and l: "mapM str_len (concat (map filenameList (multiInds cat))) = Inr lens"
    and m: "py_max lens = Inr mx"
    and ft: "first_table (multiInds cat) = Inr ft"
    and st: "second_table (mx + 1) (multiInds cat) = Inr st"
    and e': "e' = e\<lparr>path_exists := (path_exists e)(outName := True),
                   fits_open := (fits_open e)(outName := Inr \<lparr>first = ft, second = st\<rparr>)\<rparr>"
    by (auto simp: writeCache_def split: sum.splits if_splits)
  from ft have ft': "ft = first_rows (multiInds cat)"
    by (simp add: first_table_def split: if_splits)
  from st have st': "st = second_rows (Suc mx) (multiInds cat)"
    and asc: "list_all is_ascii (concat (map filenameList (multiInds cat)))"
    by (simp_all add: second_table_def split: if_splits)
  have "getIndexPath e' (Some cacheFilename) = Inr outName"
    using p getIndexPath_env [of e' e "Some cacheFilename"] by (simp add: e')
  then show thesis
    using l m by (rule that) (simp_all add: e' ft' st' asc)
qed

lemma example_tables:
  "mapM str_len (concat (map filenameList (multiInds example_catalog))) = Inr [9, 9, 9, 9]"
  "py_max [9, 9, 9, 9] = Inr 9"
  "first_table (multiInds example_catalog) = Inr [(0, 10, 4), (1, 20, 4)]"
  "second_table 10 (multiInds example_catalog) =
     Inr [(0, ''idx1.fits''), (0, ''idx1.fits''), (1, ''idx2.fits''), (1, ''idx2.fits'')]"
  by code_simp+

lemma example_path:
  "getIndexPath example_env (Some cacheFilename) = Inr ''/data/andCache.fits''"
  "getIndexPath cached_env (Some cacheFilename) = Inr ''/data/andCache.fits''"
  by code_simp+

lemma example_writeCache: "writeCache example_env example_catalog = Inr cached_env"
  by (simp add: writeCache_def example_path example_tables cached_env_def example_cache_def)
     (simp add: example_env_def)

text \<open>
  C9. On a registry without handles \<open>writeCache\<close> raises the \<open>ValueError\<close> of \<open>max\<close>
  over no value and writes nothing. When it returns, on a registry whose handles are
  states of handle objects, the registry has a handle, and every handle has a filename
  and no entry \<open>None\<close>.
\<close>

theorem writeCache_needs_handles:
  "(multiInds cat = [] \<longrightarrow> writeCache e cat = Inl ValueError) \<and>
   (writeCache e cat = Inr e' \<and> (\<forall>h\<in>set (multiInds cat). reachable h) \<longrightarrow>
      multiInds cat \<noteq> [] \<and>
      (\<forall>h\<in>set (multiInds cat). filenameList h \<noteq> [] \<and> None \<notin> set (filenameList h)))"
proof (intro conjI impI)
  assume "multiInds cat = []"
  then show "writeCache e cat = Inl ValueError" by (rule writeCache_empty)
next
  assume a: "writeCache e cat = Inr e' \<and> (\<forall>h\<in>set (multiInds cat). reachable h)"
  then show "multiInds cat \<noteq> []"
    using writeCache_empty [of cat e] by auto
next
  assume a: "writeCache e cat = Inr e' \<and> (\<forall>h\<in>set (multiInds cat). reachable h)"
  then obtain lens where
    "mapM str_len (concat (map filenameList (multiInds cat))) = Inr lens"
    by (auto elim: writeCache_Inr)
  then have "None \<notin> set (concat (map filenameList (multiInds cat)))"
    by (rule mapM_str_len [THEN conjunct1])
  moreover have "\<forall>h\<in>set (multiInds cat). 2 \<le> length (filenameList h)"
    using a reachable_inv by (auto simp: handle_inv_def)
  ultimately show "\<forall>h\<in>set (multiInds cat). filenameList h \<noteq> [] \<and> None \<notin> set (filenameList h)"
    by auto
qed

theorem writeCache_needs_handles_witness:
  "multiInds empty_catalog = [] \<and> writeCache example_env empty_catalog = Inl ValueError \<and>
   writeCache example_env example_catalog = Inr cached_env \<and>
   multiInds example_catalog \<noteq> [] \<and>
   map filenameList (multiInds example_catalog) =
     [[Some ''idx1.fits'', Some ''idx1.fits''], [Some ''idx2.fits'', Some ''idx2.fits'']]"
proof -
  have e: "multiInds empty_catalog = []"
    by (simp add: empty_catalog_def)
  have r: "\<forall>h\<in>set (multiInds example_catalog). reachable h"
    by (simp add: example_catalog_def example_reachable)
  from writeCache_needs_handles [of empty_catalog example_env cached_env]
    writeCache_needs_handles [of example_catalog example_env cached_env]
    e r example_writeCache
  show ?thesis
    by (simp add: example_catalog_def example_index1_def example_index2_def)
qed

subsection \<open>generateCache\<close>

lemma reload_all_inv:
  "\<forall>h\<in>set hs. handle_inv h \<Longrightarrow> \<forall>h\<in>set (fst (reload_all e hs)). handle_inv h"
proof (induction hs)
  case Nil
  show ?case by simp
next
  case (Cons h hs)
  have "handle_inv (fst (reload e h))"
    using Cons.prems by (simp add: handle_inv_reload)
  with Cons show ?case
    by (auto split: prod.splits option.splits)
qed

lemma reload_all_length: "length (fst (reload_all e hs)) = length hs"
  by (induction hs) (auto split: prod.splits option.splits)

lemma unload_inv: "handle_inv h \<Longrightarrow> snd (unload h) = None \<and> \<not> loaded (fst (unload h))"
  by (auto simp: handle_inv_def unload_def split: option.splits)

lemma unload_all_inv:
  "\<forall>h\<in>set hs. handle_inv h \<Longrightarrow> unload_all hs = (map (\<lambda>h. fst (unload h)) hs, None)"
proof (induction hs)
  case Nil
  show ?case by simp
next
  case (Cons h hs)
  then have "snd (unload h) = None" by (simp add: unload_inv)
  with Cons show ?case
    by (auto split: prod.splits option.splits)
qed

text \<open>The loop over the handles: every handle is reloaded, up to the first that raises.\<close>

lemma reload_all_returns:
  "\<forall>h\<in>set hs. snd (reload e h) = None \<Longrightarrow>
     reload_all e hs = (map (\<lambda>h. fst (reload e h)) hs, None)"
  by (induction hs) (auto split: prod.splits option.splits)

lemma reload_all_raises:
  "\<forall>h\<in>set pre. snd (reload e h) = None \<Longrightarrow> snd (reload e h) = Some err \<Longrightarrow>
     reload_all e (pre @ h # post) =
       (map (\<lambda>h. fst (reload e h)) pre @ fst (reload e h) # post, Some err)"
  by (induction pre) (auto split: prod.splits option.splits)

text \<open>
  C6. Once the registry is built, \<open>generateCache\<close> leaves every handle with \<open>loaded\<close>
  false, whatever has returned or raised before. When every \<open>reload\<close> returns, each
  handle has gone through \<open>reload\<close> and then \<open>unload\<close>, \<open>writeCache\<close> has run on the
  registry of the reloaded handles, and the call ends as \<open>writeCache\<close> did: in the
  environment it wrote, or with its exception. When the \<open>reload\<close> of a handle raises, the
  handles before it have gone through \<open>reload\<close>, the cache is not written, that
  exception propagates, and \<open>unload\<close> has still run on every handle.
\<close>

theorem generateCache_unloads:
  assumes cfg: "(case andConfig of None \<Rightarrow> getConfigFromEnvironment e | Some c \<Rightarrow> Inr c) = Inr c"
    and cat: "AstrometryNetCatalog e c = Inr cat"
  shows "\<exists>cat' e' r. generateCache e andConfig = ((Some cat', e'), r) \<and>
           length (multiInds cat') = length (multiInds cat) \<and>
           (\<forall>h\<in>set (multiInds cat'). \<not> loaded h) \<and>
           ((\<forall>h\<in>set (multiInds cat). snd (reload e h) = None) \<longrightarrow>
              multiInds cat' = map (\<lambda>h. fst (unload (fst (reload e h)))) (multiInds cat) \<and>
              (case writeCache e (cat\<lparr>multiInds := map (\<lambda>h. fst (reload e h)) (multiInds cat)\<rparr>) of
                 Inl err \<Rightarrow> e' = e \<and> r = Some err
               | Inr e1 \<Rightarrow> e' = e1 \<and> r = None)) \<and>
           (\<forall>pre h post err.
              multiInds cat = pre @ h # post \<and> (\<forall>h\<in>set pre. snd (reload e h) = None) \<and>
              snd (reload e h) = Some err \<longrightarrow>
              multiInds cat' =
                map (\<lambda>h. fst (unload h))
                  (map (\<lambda>h. fst (reload e h)) pre @ fst (reload e h) # post) \<and>
              e' = e \<and> r = Some err)"
proof -
  let ?hs = "multiInds cat"
  obtain inds1 r1 where ra: "reload_all e ?hs = (inds1, r1)"
    by (cases "reload_all e ?hs") simp
  have inv1: "\<forall>h\<in>set inds1. handle_inv h"
    using reload_all_inv [OF catalog_inv [OF cat], of e] by (simp add: ra)
  have u: "unload_all inds1 = (map (\<lambda>h. fst (unload h)) inds1, None)"
    by (rule unload_all_inv [OF inv1])
  define out where
    "out = (case r1 of
              Some err \<Rightarrow> (e, Some err)
            | None \<Rightarrow>
                (case writeCache e (cat\<lparr>multiInds := inds1\<rparr>) of
                   Inl err \<Rightarrow> (e, Some err)
                 | Inr e1 \<Rightarrow> (e1, None)))"
  let ?cat' = "cat\<lparr>multiInds := map (\<lambda>h. fst (unload h)) inds1\<rparr>"
  have g: "generateCache e andConfig = ((Some ?cat', fst out), snd out)"
    unfolding generateCache_def cfg out_def
    by (simp add: cat u ra split: prod.splits option.splits sum.splits)
  have l: "length (multiInds ?cat') = length ?hs"
    using reload_all_length [of e ?hs] by (simp add: ra)
  have nl: "\<forall>h\<in>set (multiInds ?cat'). \<not> loaded h"
    using inv1 by (simp add: unload_inv)
  have ok: "multiInds ?cat' = map (\<lambda>h. fst (unload (fst (reload e h)))) ?hs \<and>
      (case writeCache e (cat\<lparr>multiInds := map (\<lambda>h. fst (reload e h)) ?hs\<rparr>) of
         Inl err \<Rightarrow> fst out = e \<and> snd out = Some err
       | Inr e1 \<Rightarrow> fst out = e1 \<and> snd out = None)"
    if "\<forall>h\<in>set ?hs. snd (reload e h) = None"
  proof -
    from reload_all_returns [OF that] ra
    have i: "inds1 = map (\<lambda>h. fst (reload e h)) ?hs" and r: "r1 = None" by simp_all
    show ?thesis
      by (simp add: out_def r i comp_def split: sum.splits)
  qed
  have bad: "multiInds ?cat' =
        map (\<lambda>h. fst (unload h)) (map (\<lambda>h. fst (reload e h)) pre @ fst (reload e h) # post) \<and>
      fst out = e \<and> snd out = Some err"
    if "?hs = pre @ h # post" "\<forall>h\<in>set pre. snd (reload e h) = None"
      "snd (reload e h) = Some err" for pre h post err
  proof -
    from reload_all_raises [OF that(2,3), of post] ra that(1)
    have "inds1 = map (\<lambda>h. fst (reload e h)) pre @ fst (reload e h) # post" "r1 = Some err"
      by simp_all
    then show ?thesis
      by (simp add: out_def)
  qed
  show ?thesis
    using g l nl ok bad by blast
qed

lemma cached_evaluated:
  "AstrometryNetCatalog cached_env example_config = Inr cached_catalog"
  "AstrometryNetCatalog readonly_env example_config = Inr cached_catalog"
  "AstrometryNetCatalog missing_env example_config = Inr cached_catalog"
  "reload cached_env unread1 = (example_index1, None)"
  "reload cached_env unread2 = (example_index2, None)"
  "reload readonly_env unread1 = (example_index1, None)"
  "reload readonly_env unread2 = (example_index2, None)"
  "reload missing_env unread1 = (example_index1, None)"
  "reload missing_env unread2 = (unread2, Some RuntimeError)"
  "unload example_index1 = (unloaded1, None)"
  "unload example_index2 = (unloaded2, None)"
  "unload unread2 = (unread2, None)"
  by code_simp+

lemma cached_writeCache:
  "\<not> isl (writeCache cached_env (cached_catalog\<lparr>multiInds := [example_index1, example_index2]\<rparr>))"
  "fits_open
     (projr (writeCache cached_env (cached_catalog\<lparr>multiInds := [example_index1, example_index2]\<rparr>)))
     ''/data/andCache.fits'' = Inr example_cache"
  "isl (writeCache readonly_env (cached_catalog\<lparr>multiInds := [example_index1, example_index2]\<rparr>))"
  "projl (writeCache readonly_env (cached_catalog\<lparr>multiInds := [example_index1, example_index2]\<rparr>)) =
     OSError"
  by code_simp+

text \<open>
  Three runs from the installation with a cache file: the cache is written again; the
  cache file cannot be written; the second index file has gone, so that the reload of
  its handle raises.
\<close>

theorem generateCache_unloads_witness:
  "(\<exists>cat' e' r. generateCache cached_env (Some example_config) = ((Some cat', e'), r) \<and>
      multiInds cat' = [unloaded1, unloaded2] \<and> r = None \<and>
      fits_open e' ''/data/andCache.fits'' = Inr example_cache) \<and>
   (\<exists>cat' e' r. generateCache readonly_env (Some example_config) = ((Some cat', e'), r) \<and>
      multiInds cat' = [unloaded1, unloaded2] \<and> r = Some OSError) \<and>
   (\<exists>cat' e' r. generateCache missing_env (Some example_config) = ((Some cat', e'), r) \<and>
      multiInds cat' = [unloaded1, unread2] \<and> r = Some RuntimeError)"
proof (intro conjI)
  have c: "(case Some example_config of None \<Rightarrow> getConfigFromEnvironment env
            | Some c \<Rightarrow> Inr c) = Inr example_config" for env
    by simp
  have hs: "multiInds cached_catalog = [unread1, unread2]"
    by (simp add: cached_catalog_def)
  {
    from generateCache_unloads [OF c cached_evaluated(1)]
    obtain cat' e' r where
      g: "generateCache cached_env (Some example_config) = ((Some cat', e'), r)"
      and ok: "(\<forall>h\<in>set (multiInds cached_catalog). snd (reload cached_env h) = None) \<longrightarrow>
          multiInds cat' =
            map (\<lambda>h. fst (unload (fst (reload cached_env h)))) (multiInds cached_catalog) \<and>
          (case writeCache cached_env
                  (cached_catalog\<lparr>multiInds :=
                     map (\<lambda>h. fst (reload cached_env h)) (multiInds cached_catalog)\<rparr>) of
             Inl err \<Rightarrow> e' = cached_env \<and> r = Some err
           | Inr e1 \<Rightarrow> e' = e1 \<and> r = None)"
      by blast
    from ok have m: "multiInds cat' = [unloaded1, unloaded2]"
      and w: "(case writeCache cached_env
                  (cached_catalog\<lparr>multiInds := [example_index1, example_index2]\<rparr>) of
             Inl err \<Rightarrow> e' = cached_env \<and> r = Some err
           | Inr e1 \<Rightarrow> e' = e1 \<and> r = None)"
      by (simp_all add: hs cached_evaluated)
    from w cached_writeCache(1,2)
    have rn: "r = None" and fo: "fits_open e' ''/data/andCache.fits'' = Inr example_cache"
      by (cases "writeCache cached_env
            (cached_catalog\<lparr>multiInds := [example_index1, example_index2]\<rparr>)"; simp)+
    show "\<exists>cat' e' r.
        generateCache cached_env (Some example_config) = ((Some cat', e'), r) \<and>
        multiInds cat' = [unloaded1, unloaded2] \<and> r = None \<and>
        fits_open e' ''/data/andCache.fits'' = Inr example_cache"
      by (rule exI [of _ cat'], rule exI [of _ e'], rule exI [of _ r]) (simp add: g m rn fo)
  }
  {
    from generateCache_unloads [OF c cached_evaluated(2)]
    obtain cat' e' r where
      g: "generateCache readonly_env (Some example_config) = ((Some cat', e'), r)"
      and ok: "(\<forall>h\<in>set (multiInds cached_catalog). snd (reload readonly_env h) = None) \<longrightarrow>
          multiInds cat' =
            map (\<lambda>h. fst (unload (fst (reload readonly_env h)))) (multiInds cached_catalog) \<and>
          (case writeCache readonly_env
                  (cached_catalog\<lparr>multiInds :=
                     map (\<lambda>h. fst (reload readonly_env h)) (multiInds cached_catalog)\<rparr>) of
             Inl err \<Rightarrow> e' = readonly_env \<and> r = Some err
           | Inr e1 \<Rightarrow> e' = e1 \<and> r = None)"
      by blast
    from ok have m: "multiInds cat' = [unloaded1, unloaded2]"
      and w: "(case writeCache readonly_env
                  (cached_catalog\<lparr>multiInds := [example_index1, example_index2]\<rparr>) of
             Inl err \<Rightarrow> e' = readonly_env \<and> r = Some err
           | Inr e1 \<Rightarrow> e' = e1 \<and> r = None)"
      by (simp_all add: hs cached_evaluated)
    from w cached_writeCache(3,4) have rn: "r = Some OSError"
      by (cases "writeCache readonly_env
            (cached_catalog\<lparr>multiInds := [example_index1, example_index2]\<rparr>)"; simp)
    show "\<exists>cat' e' r.
        generateCache readonly_env (Some example_config) = ((Some cat', e'), r) \<and>
        multiInds cat' = [unloaded1, unloaded2] \<and> r = Some OSError"
      by (rule exI [of _ cat'], rule exI [of _ e'], rule exI [of _ r]) (simp add: g m rn)
  }
  {
    from generateCache_unloads [OF c cached_evaluated(3)]
    obtain cat' e' r where
      g: "generateCache missing_env (Some example_config) = ((Some cat', e'), r)"
      and bad: "\<forall>pre h post err.
          multiInds cached_catalog = pre @ h # post \<and>
          (\<forall>h\<in>set pre. snd (reload missing_env h) = None) \<and>
          snd (reload missing_env h) = Some err \<longrightarrow>
          multiInds cat' =
            map (\<lambda>h. fst (unload h))
              (map (\<lambda>h. fst (reload missing_env h)) pre @ fst (reload missing_env h) # post) \<and>
          e' = missing_env \<and> r = Some err"
      by blast
    from bad [rule_format, of "[unread1]" unread2 "[]" RuntimeError]
    have m: "multiInds cat' = [unloaded1, unread2]" and rn: "r = Some RuntimeError"
      by (simp_all add: hs cached_evaluated)
    show "\<exists>cat' e' r.
        generateCache missing_env (Some example_config) = ((Some cat', e'), r) \<and>
        multiInds cat' = [unloaded1, unread2] \<and> r = Some RuntimeError"
      by (rule exI [of _ cat'], rule exI [of _ e'], rule exI [of _ r]) (simp add: g m rn)
  }
qed

subsection \<open>The cache file read back\<close>

lemma sint_word_of_int64: "int64 x \<Longrightarrow> sint (word_of_int x :: 64 word) = x"
  by (simp add: int64_def sint_sbintrunc' signed_take_bit_int_eq_self)

lemma of_nat_64_inj:
  "a < 2 ^ 64 \<Longrightarrow> b < 2 ^ 64 \<Longrightarrow> (of_nat a :: 64 word) = of_nat b \<longleftrightarrow> a = b"
  by (simp add: word_of_nat_eq_iff take_bit_nat_eq_self)

lemma inj_on_of_nat_64: "N \<le> 2 ^ 64 \<Longrightarrow> inj_on (of_nat :: nat \<Rightarrow> 64 word) {0..<0 + N}"
  by (rule inj_onI) (simp add: of_nat_64_inj)

text \<open>The join gives every id of the first table the filenames of its rows, in their order.\<close>

lemma join_rows_all:
  "\<forall>r\<in>set rows. fst r \<in> dom m \<Longrightarrow>
     join_rows m rows =
       Inr (\<lambda>k. map_option (\<lambda>l. l @ map snd (filter (\<lambda>r. fst r = k) rows)) (m k))"
proof (induction rows arbitrary: m)
  case Nil
  show ?case by (simp add: option.map_ident)
next
  case (Cons r rows)
  obtain k0 fn where r: "r = (k0, fn)" by (cases r)
  from Cons.prems r obtain l where l: "m k0 = Some l" by auto
  let ?m1 = "m(k0 \<mapsto> l @ [fn])"
  have "\<forall>r\<in>set rows. fst r \<in> dom ?m1"
    using Cons.prems by auto
  then have "join_rows ?m1 rows =
      Inr (\<lambda>k. map_option (\<lambda>l. l @ map snd (filter (\<lambda>r. fst r = k) rows)) (?m1 k))"
    by (rule Cons.IH)
  moreover have "(\<lambda>k. map_option (\<lambda>l. l @ map snd (filter (\<lambda>r. fst r = k) rows)) (?m1 k)) =
      (\<lambda>k. map_option (\<lambda>l. l @ map snd (filter (\<lambda>r. fst r = k) (r # rows))) (m k))"
    by (rule ext) (simp add: r l)
  moreover have "join_rows m (r # rows) = join_rows ?m1 rows"
    by (simp add: r l)
  ultimately show ?case by simp
qed

lemma fold_first_keys:
  "fold (\<lambda>(i, hp, ns) m. m(i \<mapsto> [])) rows m0 k =
     (if k \<in> fst ` set rows then Some [] else m0 k)"
  by (induction rows arbitrary: m0) (auto split: prod.splits)

lemma fold_max_init: "(a::nat) \<le> fold max ns a"
proof (induction ns arbitrary: a)
  case Nil
  show ?case by simp
next
  case (Cons b ns)
  have "max b a \<le> fold max ns (max b a)" by (rule Cons.IH)
  then show ?case by simp
qed

lemma fold_max_ge: "n \<in> set ns \<Longrightarrow> n \<le> fold max ns (a::nat)"
proof (induction ns arbitrary: a)
  case Nil
  then show ?case by simp
next
  case (Cons b ns)
  show ?case
  proof (cases "n = b")
    case True
    have "max b a \<le> fold max ns (max b a)" by (rule fold_max_init)
    with True show ?thesis by simp
  next
    case False
    with Cons.prems have "n \<in> set ns" by simp
    then show ?thesis by (simp add: Cons.IH)
  qed
qed

lemma py_max_ge: "py_max ns = Inr m \<Longrightarrow> n \<in> set ns \<Longrightarrow> n \<le> m"
  using fold_max_init [of "hd ns" "tl ns"] fold_max_ge [of n "tl ns" "hd ns"]
  by (cases ns) (auto simp: py_max_def)

text \<open>The rows of the second table, selected by the id of one handle.\<close>

lemma rows_other:
  "\<forall>i\<in>{n..<n + length hs}. key i \<noteq> k \<Longrightarrow>
     filter (\<lambda>r. fst r = k)
       (concat (map (\<lambda>(j, ind). map (\<lambda>fn. (key j, g fn)) (f ind)) (enumerate n hs))) = []"
proof (induction hs arbitrary: n)
  case Nil
  show ?case by simp
next
  case (Cons h hs)
  have "key n \<noteq> k" using Cons.prems by simp
  moreover have "\<forall>i\<in>{Suc n..<Suc n + length hs}. key i \<noteq> k"
    using Cons.prems by simp
  ultimately show ?case
    using Cons.IH [of "Suc n"] by (simp add: filter_empty_conv)
qed

lemma rows_own:
  "inj_on key {n..<n + length hs} \<Longrightarrow> j < length hs \<Longrightarrow>
     map snd (filter (\<lambda>r. fst r = key (n + j))
       (concat (map (\<lambda>(j, ind). map (\<lambda>fn. (key j, g fn)) (f ind)) (enumerate n hs))))
     = map g (f (hs ! j))"
proof (induction hs arbitrary: n j)
  case Nil
  then show ?case by simp
next
  case (Cons h hs)
  have sub: "{Suc n..<Suc n + length hs} \<subseteq> {n..<n + length (h # hs)}" by auto
  have inj': "inj_on key {Suc n..<Suc n + length hs}"
    by (rule inj_on_subset [OF Cons.prems(1) sub])
  have other: "i \<in> {n..<n + length (h # hs)} \<Longrightarrow> i' \<in> {n..<n + length (h # hs)} \<Longrightarrow>
      i \<noteq> i' \<Longrightarrow> key i \<noteq> key i'" for i i'
    using Cons.prems(1) by (auto simp: inj_on_def)
  show ?case
  proof (cases j)
    case 0
    have "\<forall>i\<in>{Suc n..<Suc n + length hs}. key i \<noteq> key n"
      using other [of _ n] by auto
    from rows_other [OF this, of g f] show ?thesis
      by (simp add: 0 filter_map comp_def)
  next
    case (Suc j')
    have ne: "key n \<noteq> key (Suc (n + j'))"
      using other [of n "Suc (n + j')"] Cons.prems(2) Suc by simp
    have "j' < length hs" using Cons.prems Suc by simp
    from Cons.IH [OF inj' this] ne show ?thesis
      by (simp add: Suc filter_empty_conv)
  qed
qed

lemma filename_field_written:
  "filename_field \<lparr>first = ft, second = second_rows w hs\<rparr> =
     concat (map (\<lambda>(j, ind). map (\<lambda>fn. (of_nat j, read_str w fn)) (filenameList ind))
       (enumerate 0 hs))"
  by (simp add: filename_field_def second_rows_def read_str_def map_concat comp_def
      case_prod_unfold)

lemma second_rows_rows:
  assumes "length hs \<le> 2 ^ 64" and "j < length hs"
  shows "map snd (filter (\<lambda>r. fst r = (of_nat j :: 64 word))
           (filename_field \<lparr>first = ft, second = second_rows w hs\<rparr>)) =
           map (read_str w) (filenameList (hs ! j))"
  using rows_own [OF inj_on_of_nat_64 [OF assms(1)] assms(2), of "read_str w" filenameList]
  by (simp add: filename_field_written)

lemma first_rows_keys: "fst ` set (first_rows hs) = of_nat ` {0..<length hs}"
  by (force simp: first_rows_def in_set_enumerate_eq image_iff)

lemma second_rows_keys:
  "r \<in> set (filename_field \<lparr>first = ft, second = second_rows w hs\<rparr>) \<Longrightarrow>
     fst r \<in> of_nat ` {0..<length hs}"
  by (auto simp: filename_field_written in_set_enumerate_eq)

lemma joinCache_written:
  assumes len: "length hs \<le> 2 ^ 64"
    and inv: "\<forall>h\<in>set hs. 2 \<le> length (filenameList h) \<and> int64 (healpix h) \<and> int64 (nside h)"
    and st: "\<forall>h\<in>set hs. map (\<lambda>fn. Some (read_str w fn)) (filenameList h) = filenameList h"
  shows "joinCache \<lparr>first = first_rows hs, second = second_rows w hs\<rparr> = Inr (map unread hs)"
proof -
  let ?ini = "fold (\<lambda>(i, hp, ns) m. m(i \<mapsto> [])) (first_rows hs) Map.empty"
  let ?rows = "filename_field \<lparr>first = first_rows hs, second = second_rows w hs\<rparr>"
  define m where
    "m = (\<lambda>k. map_option (\<lambda>l. l @ map snd (filter (\<lambda>r. fst r = k) ?rows)) (?ini k))"
  let ?F = "\<lambda>(i, hp, ns). case m i of None \<Rightarrow> Inl KeyError
            | Some l \<Rightarrow> MultiIndexCache (map Some l) (sint hp) (sint ns)"
  let ?G = "\<lambda>(j, ind). (of_nat j :: 64 word, word_of_int (healpix ind) :: 64 word,
                         word_of_int (nside ind) :: 64 word)"
  have ini: "?ini k = (if k \<in> of_nat ` {0..<length hs} then Some [] else None)" for k
    by (simp only: fold_first_keys first_rows_keys)
  have "\<forall>r\<in>set ?rows. fst r \<in> dom ?ini"
    using second_rows_keys [of _ "first_rows hs" w hs] by (auto simp: ini dom_def)
  then have jr: "join_rows ?ini ?rows = Inr m"
    unfolding m_def by (rule join_rows_all)
  have row: "?F (?G x) = Inr (unread (snd x))" if x: "x \<in> set (enumerate 0 hs)" for x
  proof -
    obtain j h where jh: "x = (j, h)" by (cases x)
    from x jh have j: "j < length hs" and h: "h = hs ! j"
      by (auto simp: in_set_enumerate_eq)
    then have hs: "h \<in> set hs" by simp
    have mj: "m (of_nat j) = Some (map (read_str w) (filenameList h))"
      using j by (simp add: m_def ini second_rows_rows [OF len j] h)
    have fl: "map Some (map (read_str w) (filenameList h)) = filenameList h"
      using st hs by (simp add: comp_def)
    from inv hs have "2 \<le> length (filenameList h)" "int64 (healpix h)" "int64 (nside h)"
      by auto
    then show ?thesis
      unfolding jh prod.case snd_conv mj option.case fl
      by (simp add: MultiIndexCache_def sint_word_of_int64 unread_def)
  qed
  have "mapM ?F (first_rows hs) = mapM (\<lambda>x. ?F (?G x)) (enumerate 0 hs)"
    unfolding first_rows_def by (rule mapM_map)
  also have "\<dots> = Inr (map (\<lambda>x. unread (snd x)) (enumerate 0 hs))"
    by (rule mapM_all_Inr) (simp add: row)
  also have "map (\<lambda>x. unread (snd x)) (enumerate 0 hs) = map unread (map snd (enumerate 0 hs))"
    by (simp only: map_map comp_def)
  also have "map snd (enumerate 0 hs) = hs"
    by simp
  finally have "mapM ?F (first_rows hs) = Inr (map unread hs)" .
  then show ?thesis
    by (simp add: joinCache_def jr)
qed

lemma cacheFiles_written:
  assumes st: "\<forall>h\<in>set hs. map (\<lambda>fn. Some (read_str w fn)) (filenameList h) = filenameList h"
  shows "cacheFiles \<lparr>first = ft, second = second_rows w hs\<rparr> = set (concat (map filenameList hs))"
proof -
  have "map (\<lambda>(i, fn). Some fn) (filename_field \<lparr>first = ft, second = second_rows w hs\<rparr>) =
          concat (map (\<lambda>h. map (\<lambda>fn. Some (read_str w fn)) (filenameList h))
            (map snd (enumerate 0 hs)))"
    by (simp add: filename_field_written map_concat comp_def case_prod_beta
        del: map_snd_enumerate)
  also have "\<dots> = concat (map filenameList hs)"
    using st by (simp cong: map_cong)
  finally show ?thesis by (simp add: cacheFiles_def)
qed

text \<open>
  A registry that the constructor returns, from the index files or from a cache, has
  the filenames of its configuration, and at least two in every handle.
\<close>

lemma join_rows_dom: "join_rows m rows = Inr m' \<Longrightarrow> \<forall>r\<in>set rows. fst r \<in> dom m"
proof (induction rows arbitrary: m)
  case Nil
  show ?case by simp
next
  case (Cons r rows)
  obtain k0 fn where r: "r = (k0, fn)" by (cases r)
  from Cons.prems r obtain l where l: "m k0 = Some l"
    and j: "join_rows (m(k0 \<mapsto> l @ [fn])) rows = Inr m'"
    by (auto split: option.splits)
  from Cons.IH [OF j] have "\<forall>r\<in>set rows. fst r \<in> dom m"
    using l by (auto split: if_splits)
  with l r show ?case by auto
qed

lemma mapM_Inr_map_same:
  "mapM f xs = Inr ys \<Longrightarrow> (\<And>x y. x \<in> set xs \<Longrightarrow> f x = Inr y \<Longrightarrow> g y = k x) \<Longrightarrow>
     map g ys = map k xs"
  by (induction xs arbitrary: ys) (auto split: sum.splits)

lemma joinCache_files:
  assumes "joinCache c = Inr inds"
  shows "set (concat (map filenameList inds)) = cacheFiles c"
proof -
  let ?ini = "fold (\<lambda>(i, hp, ns) m. m(i \<mapsto> [])) (first c)
                (Map.empty :: 64 word \<rightharpoonup> string list)"
  let ?sel = "\<lambda>k. map snd (filter (\<lambda>r. fst r = k) (filename_field c))"
  from assms obtain filenames where jr: "join_rows ?ini (filename_field c) = Inr filenames"
    and mm: "mapM (\<lambda>(i, hp, ns). case filenames i of None \<Rightarrow> Inl KeyError
            | Some l \<Rightarrow> MultiIndexCache (map Some l) (sint hp) (sint ns)) (first c) = Inr inds"
    by (auto simp: joinCache_def split: sum.splits)
  have keys: "\<forall>r\<in>set (filename_field c). fst r \<in> dom ?ini"
    by (rule join_rows_dom [OF jr])
  have ini: "?ini k = (if k \<in> fst ` set (first c) then Some [] else None)" for k
    by (simp only: fold_first_keys)
  from join_rows_all [OF keys] jr
  have fn: "filenames = (\<lambda>k. map_option (\<lambda>l. l @ ?sel k) (?ini k))"
    by simp
  have "map filenameList inds = map (\<lambda>x. map Some (?sel (fst x))) (first c)"
  proof (rule mapM_Inr_map_same [OF mm])
    fix x y
    assume x: "x \<in> set (first c)"
      and y: "(case x of (i, hp, ns) \<Rightarrow> (case filenames i of None \<Rightarrow> Inl KeyError
            | Some l \<Rightarrow> MultiIndexCache (map Some l) (sint hp) (sint ns))) = Inr y"
    obtain i hp ns where xi: "x = (i, hp, ns)" by (cases x)
    from x xi have "i \<in> fst ` set (first c)" by force
    then have "filenames i = Some (?sel i)" by (simp add: fn ini)
    with y xi show "filenameList y = map Some (?sel (fst x))"
      by (auto simp: MultiIndexCache_def split: if_splits)
  qed
  then have "concat (map filenameList inds) =
      concat (map (\<lambda>x. map Some (?sel (fst x))) (first c))"
    by (simp only:)
  then have "set (concat (map filenameList inds)) =
      (\<Union>x\<in>set (first c). Some ` set (?sel (fst x)))"
    by (simp add: image_image)
  also have "\<dots> = Some ` snd ` set (filename_field c)"
  proof (intro equalityI subsetI)
    fix v assume "v \<in> (\<Union>x\<in>set (first c). Some ` set (?sel (fst x)))"
    then obtain r where "r \<in> set (filename_field c)" "v = Some (snd r)"
      by auto
    then show "v \<in> Some ` snd ` set (filename_field c)" by blast
  next
    fix v assume "v \<in> Some ` snd ` set (filename_field c)"
    then obtain r where r: "r \<in> set (filename_field c)" and v: "v = Some (snd r)" by blast
    from keys r have "?ini (fst r) \<noteq> None" by blast
    then have "fst r \<in> fst ` set (first c)"
      unfolding ini by (simp split: if_splits)
    then obtain x where x: "x \<in> set (first c)" and fx: "fst x = fst r" by force
    from r fx have "snd r \<in> set (?sel (fst x))" by simp
    with x v show "v \<in> (\<Union>x\<in>set (first c). Some ` set (?sel (fst x)))" by blast
  qed
  also have "Some ` snd ` set (filename_field c) = cacheFiles c"
    unfolding cacheFiles_def set_map image_image
    by (rule image_cong) (simp_all add: case_prod_beta)
  finally show ?thesis .
qed

lemma catalog_consistent:
  assumes "AstrometryNetCatalog e c = Inr cat"
  shows "config cat = c \<and> set (concat (map filenameList (multiInds cat))) = configFiles c \<and>
         (\<forall>h\<in>set (multiInds cat). 2 \<le> length (filenameList h))"
proof -
  from assms obtain inds where cat: "cat = \<lparr>config = c, multiInds = inds\<rparr>"
    by (auto simp: AstrometryNetCatalog_def split: sum.splits)
  have "set (concat (map filenameList inds)) = configFiles c"
  proof (cases "initFromIndexFiles e c = Inr inds")
    case True
    then show ?thesis by (rule initFromIndexFiles_consistent)
  next
    case False
    with assms cat obtain p where "initFromCache e c p = Inr inds"
      by (auto simp: AstrometryNetCatalog_def split: sum.splits if_splits)
    then obtain hdu where "joinCache hdu = Inr inds" "cacheFiles hdu = configFiles c"
      by (auto simp: initFromCache_def split: sum.splits if_splits)
    with joinCache_files [of hdu inds] show ?thesis by simp
  qed
  moreover have "\<forall>h\<in>set (multiInds cat). 2 \<le> length (filenameList h)"
    using catalog_inv [OF assms] by (simp add: handle_inv_def)
  ultimately show ?thesis by (simp add: cat)
qed

lemma blank_tables:
  "mapM str_len (concat (map filenameList (multiInds blank_catalog))) = Inr [7, 7]"
  "py_max [7, 7] = Inr 7"
  "first_table (multiInds blank_catalog) = Inr [(0, 10, 4)]"
  "second_table 8 (multiInds blank_catalog) = Inr [(0, ''a.fits ''), (0, ''a.fits '')]"
  "getIndexPath blank_env (Some cacheFilename) = Inr ''/data/andCache.fits''"
  by code_simp+

lemma blank_writeCache: "writeCache blank_env blank_catalog = Inr blank_cached_env"
  by (simp add: writeCache_def blank_tables blank_cached_env_def blank_cache_def)
     (simp add: blank_env_def)

text \<open>
  C1 as it is stated fails on a filename that ends in a blank. The constructor builds the
  registry of \<open>blank_config\<close>, \<open>writeCache\<close> writes its cache file, the filenames read
  back from the file have lost the blank, and the construction from the file raises at
  the consistency check.
\<close>

theorem cache_roundtrip_trailing_blank:
  "AstrometryNetCatalog blank_env blank_config = Inr blank_catalog \<and>
   set (concat (map filenameList (multiInds blank_catalog))) = configFiles (config blank_catalog) \<and>
   writeCache blank_env blank_catalog = Inr blank_cached_env \<and>
   getIndexPath blank_cached_env (Some cacheFilename) = Inr ''/data/andCache.fits'' \<and>
   cacheFiles blank_cache = {Some ''a.fits''} \<and>
   initFromCache blank_cached_env (config blank_catalog) ''/data/andCache.fits'' =
     Inl AssertionError"
proof -
  have "AstrometryNetCatalog blank_env blank_config = Inr blank_catalog"
    by code_simp
  moreover have "set (concat (map filenameList (multiInds blank_catalog))) =
      configFiles (config blank_catalog)"
    by code_simp
  moreover have "getIndexPath blank_cached_env (Some cacheFilename) = Inr ''/data/andCache.fits''"
    by code_simp
  moreover have "cacheFiles blank_cache = {Some ''a.fits''}"
    by code_simp
  moreover have "initFromCache blank_cached_env (config blank_catalog) ''/data/andCache.fits'' =
      Inl AssertionError"
    by code_simp
  ultimately show ?thesis
    using blank_writeCache by simp
qed

text \<open>
  C1, as the program has it. Let \<open>writeCache\<close> return on a registry whose handles have at
  least two filenames each, none of which ends in white space or padding, and a healpix
  and an nside that fit the 64-bit columns, that has fewer than \<open>2^63\<close> handles, and
  whose filenames are, as a set, those of its configuration (as \<open>catalog_consistent\<close>
  shows of every registry the constructor returns). Then the construction from the file
  just written returns a registry with as many handles, whose healpix, nside and filename
  lists are those of the original, handle by handle in the registry's order.
\<close>

theorem cache_roundtrip:
  assumes w: "writeCache e cat = Inr e'"
    and inv: "\<forall>h\<in>set (multiInds cat).
                2 \<le> length (filenameList h) \<and> int64 (healpix h) \<and> int64 (nside h) \<and>
                (\<forall>fn\<in>set (filenameList h). map_option rstrip fn = fn)"
    and len: "length (multiInds cat) < 2 ^ 63"
    and cons: "set (concat (map filenameList (multiInds cat))) = configFiles (config cat)"
  shows "\<exists>outName inds.
           getIndexPath e' (Some cacheFilename) = Inr outName \<and>
           initFromCache e' (config cat) outName = Inr inds \<and>
           length inds = length (multiInds cat) \<and>
           map healpix inds = map healpix (multiInds cat) \<and>
           map nside inds = map nside (multiInds cat) \<and>
           map filenameList inds = map filenameList (multiInds cat)"
proof -
  let ?hs = "multiInds cat"
  from w obtain outName lens mx where
    p: "getIndexPath e' (Some cacheFilename) = Inr outName"
    and l: "mapM str_len (concat (map filenameList ?hs)) = Inr lens"
    and m: "py_max lens = Inr mx"
    and f: "fits_open e' outName =
       Inr \<lparr>first = first_rows ?hs, second = second_rows (Suc mx) ?hs\<rparr>"
    by (rule writeCache_Inr)
  have st: "\<forall>h\<in>set ?hs. map (\<lambda>fn. Some (read_str (Suc mx) fn)) (filenameList h) = filenameList h"
  proof
    fix h assume h: "h \<in> set ?hs"
    have "Some (read_str (Suc mx) fn) = fn" if fn: "fn \<in> set (filenameList h)" for fn
    proof -
      from fn h have mem: "fn \<in> set (concat (map filenameList ?hs))" by auto
      with mapM_str_len [OF l] obtain s where s: "fn = Some s"
        by (cases fn) auto
      from mem mapM_str_len [OF l] have "length (the fn) \<in> set lens" by auto
      with py_max_ge [OF m] s have "length s \<le> mx" by simp
      moreover from inv h fn s have "rstrip s = s" by auto
      ultimately show ?thesis using s by (simp add: read_str_def store_str_def)
    qed
    then show "map (\<lambda>fn. Some (read_str (Suc mx) fn)) (filenameList h) = filenameList h"
      by (simp add: map_idI)
  qed
  have inv': "\<forall>h\<in>set ?hs. 2 \<le> length (filenameList h) \<and> int64 (healpix h) \<and> int64 (nside h)"
    using inv by blast
  have "length ?hs \<le> 2 ^ 64" using len by simp
  from joinCache_written [OF this inv' st]
  have j: "joinCache \<lparr>first = first_rows ?hs, second = second_rows (Suc mx) ?hs\<rparr>
             = Inr (map unread ?hs)" .
  have cf: "cacheFiles \<lparr>first = first_rows ?hs, second = second_rows (Suc mx) ?hs\<rparr>
             = configFiles (config cat)"
    using cacheFiles_written [OF st] cons by (simp only:)
  have "initFromCache e' (config cat) outName = Inr (map unread ?hs)"
    by (simp add: initFromCache_def f j cf)
  with p show ?thesis
    by (simp add: unread_def comp_def)
qed

theorem cache_roundtrip_witness:
  "writeCache example_env example_catalog = Inr cached_env \<and>
   getIndexPath cached_env (Some cacheFilename) = Inr ''/data/andCache.fits'' \<and>
   initFromCache cached_env example_config ''/data/andCache.fits'' = Inr [unread1, unread2] \<and>
   map healpix [unread1, unread2] = map healpix (multiInds example_catalog) \<and>
   map nside [unread1, unread2] = map nside (multiInds example_catalog) \<and>
   map filenameList [unread1, unread2] = map filenameList (multiInds example_catalog)"
proof -
  have inv: "\<forall>h\<in>set (multiInds example_catalog).
      2 \<le> length (filenameList h) \<and> int64 (healpix h) \<and> int64 (nside h) \<and>
      (\<forall>fn\<in>set (filenameList h). map_option rstrip fn = fn)"
    by (simp add: example_catalog_def example_index1_def example_index2_def int64_def
        rstrip_def is_space_def)
  have len: "length (multiInds example_catalog) < 2 ^ 63"
    by (simp add: example_catalog_def)
  have cons: "set (concat (map filenameList (multiInds example_catalog))) =
      configFiles (config example_catalog)"
    by (auto simp: example_catalog_def example_index1_def example_index2_def configFiles_def
        example_config_def)
  from cache_roundtrip [OF example_writeCache inv len cons]
  obtain outName inds where a: "getIndexPath cached_env (Some cacheFilename) = Inr outName"
    and b: "initFromCache cached_env (config example_catalog) outName = Inr inds"
    and c: "map healpix inds = map healpix (multiInds example_catalog)"
      "map nside inds = map nside (multiInds example_catalog)"
      "map filenameList inds = map filenameList (multiInds example_catalog)"
    by blast
  from a example_path(2) have "outName = ''/data/andCache.fits''" by simp
  with b example_initFromCache(1) have "inds = [unread1, unread2]"
    by (simp add: example_catalog_def)
  with c example_writeCache example_path(2) example_initFromCache(1) show ?thesis
    by simp
qed

end
